theory Spec2Isabelle
  imports Main "HOL-Library.Word" "HOL-Library.Multiset"
begin

section \<open>Runtime types (RuntimeTypes.h)\<close>

text \<open>
  \<open>DeviceIDTy\<close> is \<open>size_t\<close>, here 64 bits wide; \<open>unsigned\<close> is 32 bits wide.
\<close>

type_synonym DeviceIDTy = "64 word"

text \<open>
  A \<open>DAGNode\<close>. The raw pointers in \<open>children\<close> and \<open>parents\<close> are references into the
  \<open>DAG\<close> that owns the node: the root, or the node at an index of \<open>DAG.nodes\<close>.
  The runtime bundle, the backend hints and the module pointer are opaque to the
  functions modelled here and are left out.
\<close>

datatype DAGNodeRef = RootRef | NodeRef nat

record DAGNode =
  children :: "DAGNodeRef list"
  parents :: "DAGNodeRef list"
  deviceIDs :: "DeviceIDTy list"
  dagBackendName :: string
  logicalDevices :: "DeviceIDTy list"
  currentDeviceIdx :: "32 word"
  dagName :: string

text \<open>A default-constructed \<open>DAGNode\<close>: empty vectors and strings, index 0.\<close>

definition make_DAGNode :: DAGNode where
  "make_DAGNode = \<lparr>children = [], parents = [], deviceIDs = [], dagBackendName = [],
     logicalDevices = [], currentDeviceIdx = 0, dagName = []\<rparr>"

text \<open>
  \<open>DAGNode::getNextDevice\<close>: the index is incremented first (an \<open>unsigned\<close>, so it wraps at
  \<open>2 ^ 32\<close>), then the incremented index, converted to \<open>size_t\<close>, is reduced modulo the size
  of \<open>deviceIDs\<close>. With no device IDs the remainder is a division by zero, which is
  undefined behaviour: \<open>None\<close>.
\<close>

definition getNextDevice :: "DAGNode \<Rightarrow> (DeviceIDTy \<times> DAGNode) option" where
  "getNextDevice n =
     (let n' = n\<lparr>currentDeviceIdx := currentDeviceIdx n + 1\<rparr> in
      if deviceIDs n' = [] then None
      else Some (deviceIDs n' ! (unat (currentDeviceIdx n') mod length (deviceIDs n')), n'))"

text \<open>A freshly provisioned node holding the two physical devices 10 and 20.\<close>

definition twoDeviceNode :: DAGNode where
  "twoDeviceNode = make_DAGNode\<lparr>deviceIDs := [10, 20]\<rparr>"

section \<open>Errors (the call sites of the error macros)\<close>

text \<open>
  \<open>RETURN_ERR_IF_NOT(pred, code, msg)\<close> returns an error carrying the given error code and
  message when the predicate is false; several call sites pass a message only. An error
  records what the call site passes: the code, when there is one, and the message.
  \<open>COMPILE_CONTEXT_MALFORMED\<close> is the only error code the sources name.
\<close>

datatype ErrorCode = COMPILE_CONTEXT_MALFORMED

record GlowErr =
  errorCode :: "ErrorCode option"
  errorMessage :: string

definition MAKE_ERR :: "string \<Rightarrow> GlowErr" where
  "MAKE_ERR m = \<lparr>errorCode = None, errorMessage = m\<rparr>"

definition MAKE_ERR_code :: "ErrorCode \<Rightarrow> string \<Rightarrow> GlowErr" where
  "MAKE_ERR_code c m = \<lparr>errorCode = Some c, errorMessage = m\<rparr>"

section \<open>Compilation context (CompilationContext.h)\<close>

datatype QuantizationMode = NoneMode | Quantize | Profile

text \<open>Node kinds: \<open>Kinded::Kind\<close>, of which the sources name \<open>SaveNodeKind\<close> only.\<close>

datatype Kind = SaveNodeKind | OtherKind nat

record PrecisionConfiguration =
  quantMode :: QuantizationMode
  convertToFP16 :: bool
  convertFusedToFP16 :: bool
  clipFP16 :: bool
  precisionModeKindSet :: "Kind set"
  useSetAsWhitelist :: bool

text \<open>
  The two pointers of a \<open>CompilationContext\<close> are \<open>None\<close> when null and the address
  otherwise; \<open>verify\<close> only tests them for null. Compilation mode, backend options and
  optimization options play no part in \<open>verify\<close> or in the partitioner's dispatch.
\<close>

record CompilationContext =
  bindings :: "nat option"
  loweredInfoMap :: "nat option"
  precisionConfig :: PrecisionConfiguration

definition make_PrecisionConfiguration :: PrecisionConfiguration where
  "make_PrecisionConfiguration = \<lparr>quantMode = NoneMode, convertToFP16 = False,
     convertFusedToFP16 = False, clipFP16 = False, precisionModeKindSet = {},
     useSetAsWhitelist = False\<rparr>"

definition make_CompilationContext :: "nat option \<Rightarrow> nat option \<Rightarrow> CompilationContext" where
  "make_CompilationContext b l =
     \<lparr>bindings = b, loweredInfoMap = l,
      precisionConfig = make_PrecisionConfiguration\<rparr>"

text \<open>
  \<open>CompilationContext::verify\<close>: the checks in the order of the source. The four messages
  that carry \<open>COMPILE_CONTEXT_MALFORMED\<close> end with a line feed, as in the source.
\<close>

definition verify :: "CompilationContext \<Rightarrow> GlowErr + unit" where
  "verify c =
     (let pc = precisionConfig c in
      if \<not> (\<not> useSetAsWhitelist pc \<or> convertToFP16 pc) then
        Inl (MAKE_ERR
          ''Can only use the precisionModeKindSet as a whitelist in convertToFP16 mode.'')
      else
        (case quantMode pc of
           Profile \<Rightarrow>
             if bindings c = None then
               Inl (MAKE_ERR_code COMPILE_CONTEXT_MALFORMED
                 (''In Profiling mode, but bindings was not set.'' @ [CHR 0x0A]))
             else if loweredInfoMap c = None then
               Inl (MAKE_ERR_code COMPILE_CONTEXT_MALFORMED
                 (''In Profiling mode, but loweredInfoMap was not set.'' @ [CHR 0x0A]))
             else if \<not> (\<not> convertToFP16 pc) then
               Inl (MAKE_ERR_code COMPILE_CONTEXT_MALFORMED
                 (''Converting to FP16 while profiling is unsupported.'' @ [CHR 0x0A]))
             else Inr ()
         | Quantize \<Rightarrow>
             if loweredInfoMap c = None then
               Inl (MAKE_ERR_code COMPILE_CONTEXT_MALFORMED
                 (''In Quantization mode, but loweredInfoMap was not set.'' @ [CHR 0x0A]))
             else Inr ()
         | NoneMode \<Rightarrow> Inr ()))"

text \<open>
  The conditions under which a context is well formed, and the part of them that depends
  on the quantization mode.
\<close>

definition quantModeConditions :: "CompilationContext \<Rightarrow> bool" where
  "quantModeConditions c =
     (case quantMode (precisionConfig c) of
        Profile \<Rightarrow> bindings c \<noteq> None \<and> loweredInfoMap c \<noteq> None
                    \<and> \<not> convertToFP16 (precisionConfig c)
      | Quantize \<Rightarrow> loweredInfoMap c \<noteq> None
      | NoneMode \<Rightarrow> True)"

definition whitelistCondition :: "CompilationContext \<Rightarrow> bool" where
  "whitelistCondition c =
     (useSetAsWhitelist (precisionConfig c) \<longrightarrow> convertToFP16 (precisionConfig c))"

text \<open>A context that uses the kind set as a whitelist without converting to FP16.\<close>

definition whitelistOnlyContext :: CompilationContext where
  "whitelistOnlyContext =
     (make_CompilationContext None None)
       \<lparr>precisionConfig := make_PrecisionConfiguration\<lparr>useSetAsWhitelist := True\<rparr>\<rparr>"

text \<open>A profiling context with bindings and lowered-info map set.\<close>

definition profilingContext :: CompilationContext where
  "profilingContext =
     (make_CompilationContext (Some 1) (Some 2))
       \<lparr>precisionConfig := make_PrecisionConfiguration\<lparr>quantMode := Profile\<rparr>\<rparr>"

text \<open>A profiling context whose bindings are missing.\<close>

definition profilingNoBindings :: CompilationContext where
  "profilingNoBindings =
     (make_CompilationContext None (Some 2))
       \<lparr>precisionConfig := make_PrecisionConfiguration\<lparr>quantMode := Profile\<rparr>\<rparr>"

section \<open>The inference queue (HostManager.h)\<close>

text \<open>
  An \<open>InferRequest\<close>. The execution context and the callback take no part in the
  ordering and are left out.
\<close>

record InferRequest =
  networkName :: string
  priority :: "64 word"
  requestID :: "64 word"

text \<open>\<open>InferRequest::operator>\<close>.\<close>

definition operator_gt :: "InferRequest \<Rightarrow> InferRequest \<Rightarrow> bool" where
  "operator_gt a b =
     (if priority a = priority b then requestID a > requestID b
      else priority a > priority b)"

text \<open>\<open>std::greater<InferRequest>\<close>, the comparison of \<open>inferQueue_\<close>, calls \<open>operator>\<close>.\<close>

definition std_greater :: "InferRequest \<Rightarrow> InferRequest \<Rightarrow> bool" where
  "std_greater a b = operator_gt a b"

text \<open>
  \<open>inferQueue_\<close> is a \<open>std::priority_queue\<close> over \<open>std::greater\<close>. The container belongs to
  the standard library; it is modelled by its contract: \<open>push\<close> adds an element, \<open>top\<close> is
  an element that the comparison places after no other element of the queue, \<open>pop\<close>
  removes it. The queue is the list of its pending requests; \<open>top\<close> scans it, keeping the
  best request seen so far and replacing it when the comparison says that it is greater
  than the next one. \<open>top\<close> and \<open>pop\<close> of an empty queue are undefined: \<open>None\<close>.
\<close>

type_synonym inferQueue = "InferRequest list"

definition push :: "InferRequest \<Rightarrow> inferQueue \<Rightarrow> inferQueue" where
  "push r q = q @ [r]"

fun top_from :: "InferRequest \<Rightarrow> InferRequest list \<Rightarrow> InferRequest" where
  "top_from b [] = b"
| "top_from b (x # xs) = top_from (if std_greater b x then x else b) xs"

definition top :: "inferQueue \<Rightarrow> InferRequest option" where
  "top q = (case q of [] \<Rightarrow> None | x # xs \<Rightarrow> Some (top_from x xs))"

definition pop :: "inferQueue \<Rightarrow> inferQueue option" where
  "pop q = (case top q of None \<Rightarrow> None | Some t \<Rightarrow> Some (remove1 t q))"

text \<open>
  The order in which the requests of a queue are dequeued when nothing is pushed in
  between: \<open>top\<close> and \<open>pop\<close>, once for each pending request.
\<close>

fun drain_n :: "nat \<Rightarrow> inferQueue \<Rightarrow> InferRequest list" where
  "drain_n 0 q = []"
| "drain_n (Suc n) q =
     (case top q of None \<Rightarrow> []
      | Some t \<Rightarrow> t # (case pop q of None \<Rightarrow> [] | Some q' \<Rightarrow> drain_n n q'))"

definition drain :: "inferQueue \<Rightarrow> InferRequest list" where
  "drain q = drain_n (length q) q"

text \<open>
  The order the specification asks for: \<open>r1\<close> goes before \<open>r2\<close> when its priority value
  is lower, or the priorities are equal and its request ID is lower.
\<close>

definition dispatchedBefore :: "InferRequest \<Rightarrow> InferRequest \<Rightarrow> bool" where
  "dispatchedBefore r1 r2 =
     (priority r1 < priority r2
      \<or> (priority r1 = priority r2 \<and> requestID r1 < requestID r2))"

text \<open>Three requests, in the order of their submission.\<close>

definition request0 :: InferRequest where
  "request0 = \<lparr>networkName = ''net'', priority = 5, requestID = 0\<rparr>"

definition request1 :: InferRequest where
  "request1 = \<lparr>networkName = ''net'', priority = 1, requestID = 1\<rparr>"

definition request2 :: InferRequest where
  "request2 = \<lparr>networkName = ''net'', priority = 1, requestID = 2\<rparr>"

section \<open>Devices, graphs and backends\<close>

text \<open>
  A \<open>float\<close> is only ever copied by the functions modelled here: it is its 32-bit
  pattern.
\<close>

type_synonym float = "32 word"

record DeviceInfo =
  availableMemory :: "64 word"
  backendName :: string
  nonSupportedNodes :: string
  supportedNodes :: string
  sramCapacity :: "64 word"
  peakCompute :: float
  peakDramBw :: float
  peakSramBw :: float
  peakPCIeBw :: float

text \<open>
  Modelled from the spec: the graph classes (Graph.h) are not among the sources.
  A function is an ordered collection of operator nodes; a node has a kind, a name and
  inputs; an input refers to a placeholder, whose size in bytes is computable, or to
  something else (the output of another node, a constant); a module holds functions and
  constants. The fields bear the names of the accessors that Partitioner.cpp calls
  (\<open>Function::getName\<close> is \<open>funName\<close>).
\<close>

datatype NodeInput = PlaceholderInput string "64 word" | OtherInput string

record Node =
  getKind :: Kind
  getName :: string
  inputs :: "NodeInput list"

record Function =
  funName :: string
  getNodes :: "Node list"

record Module =
  getFunctions :: "Function list"
  getConstantsSize :: "64 word"

text \<open>
  Modelled from the spec: the three operations of a module that Partitioner.cpp calls are
  not among the sources. \<open>Module::getFunction\<close> yields the function of the given name, or
  null (\<open>None\<close>); \<open>Module::createFunction\<close> creates a new, empty sub-function of the given
  name; \<open>Module::eraseFunction\<close> removes a function.
\<close>

definition getFunction :: "Module \<Rightarrow> string \<Rightarrow> Function option" where
  "getFunction m n = find (\<lambda>f. funName f = n) (getFunctions m)"


definition eraseFunction :: "Module \<Rightarrow> Function \<Rightarrow> Module" where
  "eraseFunction m F = m\<lparr>getFunctions := remove1 F (getFunctions m)\<rparr>"

text \<open>
  Modelled from the spec: a \<open>Backend\<close> (Backend.h, not among the sources) is a collaborator
  that gives its name and answers two predicates on nodes, \<open>shouldLower\<close> and
  \<open>isOpSupported\<close>.
\<close>

record Backend =
  getBackendName :: string
  shouldLower :: "Node \<Rightarrow> bool"
  isOpSupported :: "Node \<Rightarrow> bool"

text \<open>
  Modelled from the spec: \<open>BackendInfo\<close> (PartitionerTypes.h, not among the sources) is
  aggregated per backend name: the count of devices of that backend, the memory size and
  bandwidths assumed identical across them, the supported and non-supported kind sets,
  and a reference to the backend. The fields are those \<open>genBackendMap\<close> writes; the four
  that share a name with a field of \<open>DeviceInfo\<close> are prefixed with \<open>info\<close>. The backend
  pointer is \<open>None\<close> when null. \<open>num\<close> counts entries of a vector: it is bounded by the
  size of the vector and cannot wrap around.
\<close>

record BackendInfo =
  num :: nat
  memSize :: "64 word"
  infoPeakDramBw :: float
  infoPeakSramBw :: float
  infoSramCapacity :: "64 word"
  infoPeakCompute :: float
  nonSupportedNodesKinds :: "Kind set"
  supportedNodesKinds :: "Kind set"
  backend :: "Backend option"

text \<open>
  The value-initialised \<open>BackendInfo\<close> that \<open>operator[]\<close> of the \<open>std::map\<close> from backend
  names to \<open>BackendInfo\<close> inserts for a name that is absent.
\<close>

definition make_BackendInfo :: BackendInfo where
  "make_BackendInfo = \<lparr>num = 0, memSize = 0, infoPeakDramBw = 0, infoPeakSramBw = 0,
     infoSramCapacity = 0, infoPeakCompute = 0, nonSupportedNodesKinds = {},
     supportedNodesKinds = {}, backend = None\<rparr>"

type_synonym BackendMap = "string \<rightharpoonup> BackendInfo"

definition at :: "BackendMap \<Rightarrow> string \<Rightarrow> BackendInfo" where
  "at m k = (case m k of None \<Rightarrow> make_BackendInfo | Some b \<Rightarrow> b)"

record PartitionConfig =
  funcName :: string
  numOfPartitions :: "64 word"
  backendNames :: "string list"
  partitionNames :: "string list"
  nodeToPartition :: "string \<rightharpoonup> 64 word"

definition make_PartitionConfig :: PartitionConfig where
  "make_PartitionConfig = \<lparr>funcName = [], numOfPartitions = 0, backendNames = [],
     partitionNames = [], nodeToPartition = Map.empty\<rparr>"

definition enabled :: "PartitionConfig \<Rightarrow> bool" where
  "enabled c = (numOfPartitions c > 0)"

record DAG =
  root :: DAGNode
  nodes :: "DAGNode list"

type_synonym DAGListTy = "DAG list"

section \<open>What a call can come to\<close>

text \<open>
  A call returns a value, returns an error (\<open>llvm::Error\<close>, \<open>llvm::Expected\<close>), or has no
  defined result: a failed \<open>DCHECK\<close>, a null pointer dereferenced, a vector read out of
  range, a division by zero.
\<close>

datatype 'a outcome = Abort | Failure GlowErr | Success 'a

section \<open>The partitioner's collaborators\<close>

text \<open>
  Command-line options and the global flag of \<open>Partitioner.cpp\<close>.
\<close>

record Options =
  GlowEnableLoadBalancedPartitioning :: bool
  logPartition :: bool
  dumpPartition :: bool

text \<open>
  Modelled from the spec: \<open>GraphMemInfo\<close> (declared in PartitionerTypes.h, which is not
  among the sources) holds the input, output and constant bytes of a partition, and its
  total footprint is their sum, here a sum of \<open>uint64_t\<close>. A default-constructed value
  is all zero.
\<close>

record GraphMemInfo =
  inMemSize :: "64 word"
  outMemSize :: "64 word"
  constMemSize :: "64 word"



text \<open>
  Modelled from the spec: \<open>NodeToFunctionMap\<close> (PartitionerTypes.h, not among the sources)
  is a mapping from each node to the sub-function that will own it, plus, per
  sub-function, the target backend name, the list of logical device IDs and the memory
  information; the partitions are kept in the order of their creation. A \<open>Function *\<close>
  is the name of the function, by which a \<open>Module\<close> looks functions up. The operations
  are those that the modelled steps of Partitioner.cpp call.
\<close>

record NodeToFunctionMap =
  getPartitions :: "string list"
  partitionBackend :: "string \<rightharpoonup> string"
  nodeToFunction :: "Node \<rightharpoonup> string"
  partitionCost :: "string \<rightharpoonup> GraphMemInfo"
  logicalDeviceIDMap :: "string \<rightharpoonup> DeviceIDTy list"

definition make_NodeToFunctionMap :: NodeToFunctionMap where
  "make_NodeToFunctionMap = \<lparr>getPartitions = [], partitionBackend = Map.empty,
     nodeToFunction = Map.empty, partitionCost = Map.empty,
     logicalDeviceIDMap = Map.empty\<rparr>"


definition add :: "Node \<Rightarrow> string \<Rightarrow> NodeToFunctionMap \<Rightarrow> NodeToFunctionMap" where
  "add N F m = m\<lparr>nodeToFunction := (nodeToFunction m)(N \<mapsto> F)\<rparr>"


text \<open>
  The members of a \<open>Partitioner\<close> that Partitioner.cpp reads and writes; the underscore
  that ends the name of a member is written as a prime.
\<close>

record Partitioner =
  module' :: Module
  deviceInfo' :: "DeviceInfo list"
  backends' :: "Backend list"
  saturateHost' :: bool
  optimized' :: bool
  partitionConfig' :: PartitionConfig
  memSize' :: "64 word"
  logicalDeviceID' :: DeviceIDTy
  multiBackendNames' :: bool
  backendMap' :: BackendMap
  backendHolder :: "Backend list"
  F' :: "Function option"

type_synonym FunctionToBackendNameMap = "string \<rightharpoonup> string"

text \<open>
  \<open>FunctionToNodesMap\<close>: the set of nodes of each partition, the partitions named as in
  \<open>NodeToFunctionMap\<close>.
\<close>

type_synonym FunctionToNodesMap = "string \<rightharpoonup> Node set"

text \<open>
  The functions the partitioner calls whose code is not among the sources. They are
  parameters of the model: a theorem holds for every choice of them.
  \<^item> \<open>createBackend\<close>, \<open>generateNodeKindsSet\<close>, \<open>optimizeFunction\<close> (the optimized function,
    or an error), \<open>Function::verify\<close>, \<open>getBFSLevel\<close>, \<open>updateGraphMemInfoByAddingNode\<close>;
  \<^item> \<open>optimizeCommunicationCost\<close> and \<open>partitionsCombine\<close>, the two callees of
    \<open>partitionsAdjust\<close>: each takes the mapping, the node sets of the partitions, the
    module and the available memory, and may change the first three, which the source
    passes by reference;
  \<^item> the parts of the partition flows that follow the steps modelled here: they rest on
    \<open>doPartitioning\<close>, \<open>assignLogicalDeviceID\<close>, the validations and, in the load-balanced
    flow, on floating-point estimates.
\<close>

record Externals =
  createBackend :: "string \<Rightarrow> Backend"
  generateNodeKindsSet :: "string \<Rightarrow> Kind set"
  optimizeFunction :: "Function \<Rightarrow> Backend \<Rightarrow> CompilationContext \<Rightarrow> GlowErr + Function"
  verifyFunction :: "Function \<Rightarrow> bool"
  getBFSLevel :: "Function \<Rightarrow> Node list list"
  updateGraphMemInfoByAddingNode :: "Node set \<Rightarrow> GraphMemInfo \<Rightarrow> Node \<Rightarrow> GraphMemInfo"
  optimizeCommunicationCost ::
    "NodeToFunctionMap \<Rightarrow> FunctionToNodesMap \<Rightarrow> Module \<Rightarrow> 64 word
       \<Rightarrow> NodeToFunctionMap \<times> FunctionToNodesMap \<times> Module"
  partitionsCombine ::
    "NodeToFunctionMap \<Rightarrow> FunctionToNodesMap \<Rightarrow> Module \<Rightarrow> 64 word
       \<Rightarrow> NodeToFunctionMap \<times> FunctionToNodesMap \<times> Module"
  backendBasedPartitionRest ::
    "Partitioner \<Rightarrow> (Node \<rightharpoonup> string) \<Rightarrow> FunctionToBackendNameMap \<Rightarrow> Function
       \<Rightarrow> CompilationContext
       \<Rightarrow> (DAGListTy \<times> FunctionToBackendNameMap \<times> Partitioner) outcome"
  quantizationProfilingRest ::
    "Partitioner \<Rightarrow> DAGListTy \<Rightarrow> CompilationContext \<Rightarrow> (DAGListTy \<times> Partitioner) outcome"
  heterogeneousRest ::
    "Partitioner \<Rightarrow> Backend list \<Rightarrow> FunctionToBackendNameMap \<Rightarrow> DAGListTy
       \<Rightarrow> CompilationContext \<Rightarrow> (DAGListTy \<times> Partitioner) outcome"
  loadBalancedRest ::
    "Partitioner \<Rightarrow> CompilationContext \<Rightarrow> 64 word \<Rightarrow> (DAGListTy \<times> Partitioner) outcome"
  partitionFromConfigRest ::
    "Partitioner \<Rightarrow> Function \<Rightarrow> PartitionConfig \<Rightarrow> (DAGListTy \<times> Partitioner) outcome"

section \<open>The partitioner: set-up and shared steps (Partitioner.cpp)\<close>

text \<open>
  The loop of \<open>Partitioner::init\<close>, from index \<open>i\<close> up to \<open>e\<close>: it stops with \<open>true\<close> at the
  first device whose backend name differs from that of device 0.
\<close>

function init_loop :: "DeviceInfo list \<Rightarrow> nat \<Rightarrow> nat \<Rightarrow> bool" where
  "init_loop ds i e =
     (if i < e then
        (if backendName (ds ! i) \<noteq> backendName (ds ! 0) then True
         else init_loop ds (i + 1) e)
      else False)"
  by pat_completeness auto
termination
  by (relation "measure (\<lambda>(ds, i, e). e - i)") auto

definition init :: "Partitioner \<Rightarrow> Partitioner" where
  "init P = P\<lparr>memSize' := getConstantsSize (module' P),
              logicalDeviceID' := 0,
              multiBackendNames' := init_loop (deviceInfo' P) 1 (length (deviceInfo' P))\<rparr>"

text \<open>
  The two constructors: the members named in the initialiser list, the others
  default-initialised, then \<open>init()\<close>.
\<close>

definition emptyPartitioner :: "Module \<Rightarrow> DeviceInfo list \<Rightarrow> Partitioner" where
  "emptyPartitioner parent devices =
     \<lparr>module' = parent, deviceInfo' = devices, backends' = [], saturateHost' = False,
      optimized' = False, partitionConfig' = make_PartitionConfig, memSize' = 0,
      logicalDeviceID' = 0, multiBackendNames' = False, backendMap' = Map.empty,
      backendHolder = [], F' = None\<rparr>"

definition Partitioner_backends ::
  "Module \<Rightarrow> DeviceInfo list \<Rightarrow> Backend list \<Rightarrow> bool \<Rightarrow> bool \<Rightarrow> Partitioner" where
  "Partitioner_backends parent devices backends saturate optimized =
     init ((emptyPartitioner parent devices)
       \<lparr>backends' := backends, saturateHost' := saturate, optimized' := optimized\<rparr>)"

definition Partitioner_config ::
  "Module \<Rightarrow> DeviceInfo list \<Rightarrow> bool \<Rightarrow> bool \<Rightarrow> PartitionConfig \<Rightarrow> Partitioner" where
  "Partitioner_config parent devices saturate optimized partitionConfig =
     init ((emptyPartitioner parent devices)
       \<lparr>saturateHost' := saturate, optimized' := optimized,
        partitionConfig' := partitionConfig\<rparr>)"

text \<open>
  \<open>Partitioner::genBackendMap\<close>. The loop runs over \<open>deviceInfo_\<close>, \<open>i\<close> being the index of
  the device at the head of the list; the state is the backend map, the backends
  holder, the vector \<open>backends\<close> and the counter \<open>n\<close>. The two \<open>DCHECK\<close>s guard the reads of
  \<open>backends_[i]\<close>.
\<close>

type_synonym genState = "BackendMap \<times> Backend list \<times> Backend list \<times> nat"

fun genBackendMap_loop ::
  "Externals \<Rightarrow> Backend list \<Rightarrow> DeviceInfo list \<Rightarrow> nat \<Rightarrow> genState \<Rightarrow> genState outcome" where
  "genBackendMap_loop ext bs [] i st = Success st"
| "genBackendMap_loop ext bs (d # ds) i (bm, holder, backs, n) =
     (let bn = backendName d; hasBackends = (bs \<noteq> []) in
      if hasBackends \<and> (length bs \<le> i \<or> getBackendName (bs ! i) \<noteq> bn) then Abort
      else if bm bn = None then
        (let holder1 = (if hasBackends then holder else holder @ [createBackend ext bn]);
             b = (if hasBackends then bs ! i else holder1 ! n);
             n1 = (if hasBackends then n else n + 1);
             backendInfo = \<lparr>num = 1, memSize = availableMemory d,
               infoPeakDramBw = peakDramBw d, infoPeakSramBw = peakSramBw d,
               infoSramCapacity = sramCapacity d, infoPeakCompute = peakCompute d,
               nonSupportedNodesKinds = generateNodeKindsSet ext (nonSupportedNodes d),
               supportedNodesKinds = generateNodeKindsSet ext (supportedNodes d),
               backend = Some b\<rparr>
         in genBackendMap_loop ext bs ds (i + 1)
              (bm(bn \<mapsto> backendInfo), holder1, backs @ [b], n1))
      else
        genBackendMap_loop ext bs ds (i + 1)
          (bm(bn \<mapsto> (at bm bn)\<lparr>num := num (at bm bn) + 1\<rparr>), holder, backs, n))"

definition genBackendMap ::
  "Externals \<Rightarrow> Partitioner \<Rightarrow> BackendMap \<Rightarrow> Backend list \<Rightarrow> Backend list
     \<Rightarrow> (BackendMap \<times> Backend list \<times> Backend list) outcome" where
  "genBackendMap ext P backendMap backendsHolder backends =
     (if backends' P \<noteq> [] \<and> length (backends' P) \<noteq> length (deviceInfo' P) then Abort
      else
        (case genBackendMap_loop ext (backends' P) (deviceInfo' P) 0
                (backendMap, backendsHolder, backends, 0) of
           Abort \<Rightarrow> Abort
         | Failure e \<Rightarrow> Failure e
         | Success (bm, holder, backs, n) \<Rightarrow> Success (bm, holder, backs)))"

text \<open>
  \<open>Partitioner::selectRepFunc\<close>. The innermost loop adds the size of every input
  placeholder that is not yet in \<open>pSet\<close>; save nodes are skipped; the function with the
  largest size becomes the representative, the first one in any case.
\<close>

fun selectRepFunc_inputs ::
  "NodeInput list \<Rightarrow> 64 word \<times> string set \<Rightarrow> 64 word \<times> string set" where
  "selectRepFunc_inputs [] acc = acc"
| "selectRepFunc_inputs (PlaceholderInput nm sz # ins) (curSize, pSet) =
     selectRepFunc_inputs ins
       (if nm \<notin> pSet then (curSize + sz, insert nm pSet) else (curSize, pSet))"
| "selectRepFunc_inputs (OtherInput nm # ins) acc = selectRepFunc_inputs ins acc"

fun selectRepFunc_nodes ::
  "Node list \<Rightarrow> 64 word \<times> string set \<Rightarrow> 64 word \<times> string set" where
  "selectRepFunc_nodes [] acc = acc"
| "selectRepFunc_nodes (node # ns) acc =
     selectRepFunc_nodes ns
       (if getKind node = SaveNodeKind then acc else selectRepFunc_inputs (inputs node) acc)"

fun selectRepFunc_loop ::
  "Function list \<Rightarrow> 64 word \<Rightarrow> Function option \<times> 64 word \<Rightarrow> Function option \<times> 64 word" where
  "selectRepFunc_loop [] memSz st = st"
| "selectRepFunc_loop (F # Fs) memSz (ret, maxMemSize) =
     (let curSize = fst (selectRepFunc_nodes (getNodes F) (memSz, {})) in
      selectRepFunc_loop Fs memSz
        (if ret = None \<or> curSize > maxMemSize then (Some F, curSize)
         else (ret, maxMemSize)))"

definition selectRepFunc :: "Module \<Rightarrow> 64 word \<Rightarrow> Function option \<times> 64 word" where
  "selectRepFunc parent memSz = selectRepFunc_loop (getFunctions parent) memSz (None, 0)"

text \<open>
  \<open>Partitioner::saturateHost\<close>. \<open>duplications\<close> is the quotient of the \<open>size_t\<close> number of
  devices by the \<open>unsigned\<close> count, stored in an \<open>unsigned\<close>. The new IDs are collected in
  a vector of \<open>unsigned\<close>: the \<open>size_t\<close> sum of the logical ID and the \<open>unsigned\<close> product is
  cut to 32 bits there, and widened again when it is appended to the node's vector.
  Only the nodes of \<open>DAG.nodes\<close> are visited, never \<open>DAG.root\<close>.
\<close>

definition newDevices :: "32 word \<Rightarrow> 32 word \<Rightarrow> DeviceIDTy list \<Rightarrow> 32 word list" where
  "newDevices duplications logicalDeviceCount ls =
     concat (map (\<lambda>logical.
        map (\<lambda>i. ucast (logical + ucast (of_nat i * logicalDeviceCount :: 32 word)))
            [1 ..< unat duplications]) ls)"

definition saturateNode :: "32 word \<Rightarrow> 32 word \<Rightarrow> DAGNode \<Rightarrow> DAGNode" where
  "saturateNode duplications logicalDeviceCount node =
     node\<lparr>logicalDevices := logicalDevices node
        @ map ucast (newDevices duplications logicalDeviceCount (logicalDevices node))\<rparr>"

definition saturateHost :: "Partitioner \<Rightarrow> 32 word \<Rightarrow> DAGListTy \<Rightarrow> DAGListTy outcome" where
  "saturateHost P logicalDeviceCount partitions =
     (if logicalDeviceCount = 0 then Abort
      else
        (let duplications =
               (ucast ((of_nat (length (deviceInfo' P)) :: 64 word)
                        div ucast logicalDeviceCount) :: 32 word)
         in if duplications < 2 then Success partitions
            else Success (map (\<lambda>network.
                   network\<lparr>nodes := map (saturateNode duplications logicalDeviceCount)
                                       (nodes network)\<rparr>) partitions)))"

text \<open>
  \<open>Partitioner::finalize\<close>. Logging and the DOT dumps write files only. With
  \<open>-dump-partition\<close> the nodes of \<open>partitions[0]\<close> are looked up in the module, and the
  first logical device of each is read.
\<close>

fun finalize_verify :: "Externals \<Rightarrow> Function list \<Rightarrow> unit outcome" where
  "finalize_verify ext [] = Success ()"
| "finalize_verify ext (subF # fs) =
     (if \<not> verifyFunction ext subF then
        Failure (MAKE_ERR (''Conversion led to invalid function: '' @ funName subF))
      else finalize_verify ext fs)"

fun finalize_dump :: "Module \<Rightarrow> DAGNode list \<Rightarrow> unit outcome" where
  "finalize_dump m [] = Success ()"
| "finalize_dump m (node # ns) =
     (case getFunction m (dagName node) of
        None \<Rightarrow> Failure (MAKE_ERR (''Invalid function name '' @ dagName node @ ''.''))
      | Some subF \<Rightarrow>
          (if logicalDevices node = [] then Abort else finalize_dump m ns))"

definition finalize ::
  "Externals \<Rightarrow> Options \<Rightarrow> Partitioner \<Rightarrow> DAGListTy \<Rightarrow> NodeToFunctionMap \<Rightarrow> unit outcome" where
  "finalize ext opts P partitions mapping =
     (case finalize_verify ext (getFunctions (module' P)) of
        Abort \<Rightarrow> Abort
      | Failure e \<Rightarrow> Failure e
      | Success u \<Rightarrow>
          (if dumpPartition opts then
             (case partitions of
                [] \<Rightarrow> Abort
              | p0 # ps \<Rightarrow> finalize_dump (module' P) (nodes p0))
           else Success ()))"

text \<open>
  \<open>Partitioner::createDAGWithoutPartition\<close>. The loop over the functions of the module
  optimizes each function in place, unless the module is optimized already, and builds
  its two-node DAG; it yields the functions as they stand afterwards and the DAGs.
\<close>

definition wholeFunctionDAG :: "string \<Rightarrow> string \<Rightarrow> DAG" where
  "wholeFunctionDAG fname bname =
     (let DAG0 = make_DAGNode\<lparr>logicalDevices := [0], dagName := fname\<rparr>;
          DAG1 = make_DAGNode\<lparr>logicalDevices := [0], dagName := fname,
                   dagBackendName := bname\<rparr>;
          DAG1 = DAG1\<lparr>parents := parents DAG1 @ [RootRef]\<rparr>;
          DAG0 = DAG0\<lparr>children := children DAG0 @ [NodeRef 0]\<rparr>
      in \<lparr>root = DAG0, nodes = [DAG1]\<rparr>)"

fun createDAGWithoutPartition_loop ::
  "Externals \<Rightarrow> bool \<Rightarrow> string \<Rightarrow> BackendMap \<Rightarrow> CompilationContext \<Rightarrow> Function list
     \<Rightarrow> (Function list \<times> DAGListTy) outcome" where
  "createDAGWithoutPartition_loop ext optimized bname bm cctx [] = Success ([], [])"
| "createDAGWithoutPartition_loop ext optimized bname bm cctx (F # Fs) =
     (case (if \<not> optimized then
              (case backend (at bm bname) of
                 None \<Rightarrow> Abort
               | Some b \<Rightarrow>
                   (case optimizeFunction ext F b cctx of
                      Inl e \<Rightarrow> Failure e
                    | Inr F1 \<Rightarrow> Success F1))
            else Success F) of
        Abort \<Rightarrow> Abort
      | Failure e \<Rightarrow> Failure e
      | Success F1 \<Rightarrow>
          (case createDAGWithoutPartition_loop ext optimized bname bm cctx Fs of
             Abort \<Rightarrow> Abort
           | Failure e \<Rightarrow> Failure e
           | Success (Fs1, partitions) \<Rightarrow>
               Success (F1 # Fs1, wholeFunctionDAG (funName F1) bname # partitions)))"

definition createDAGWithoutPartition ::
  "Externals \<Rightarrow> Options \<Rightarrow> Partitioner \<Rightarrow> string \<Rightarrow> BackendMap \<Rightarrow> CompilationContext
     \<Rightarrow> (DAGListTy \<times> Partitioner) outcome" where
  "createDAGWithoutPartition ext opts P bname bm cctx =
     (case createDAGWithoutPartition_loop ext (optimized' P) bname bm cctx
             (getFunctions (module' P)) of
        Abort \<Rightarrow> Abort
      | Failure e \<Rightarrow> Failure e
      | Success (Fs1, partitions) \<Rightarrow>
          (let P1 = P\<lparr>module' := (module' P)\<lparr>getFunctions := Fs1\<rparr>\<rparr> in
           case (if saturateHost' P1 then saturateHost P1 1 partitions
                 else Success partitions) of
             Abort \<Rightarrow> Abort
           | Failure e \<Rightarrow> Failure e
           | Success partitions1 \<Rightarrow>
               (case finalize ext opts P1 partitions1 make_NodeToFunctionMap of
                  Abort \<Rightarrow> Abort
                | Failure e \<Rightarrow> Failure e
                | Success u \<Rightarrow> Success (partitions1, P1))))"

section \<open>Assigning nodes to backends\<close>

text \<open>
  The first loop of \<open>Partitioner::backendBasedPartition\<close>. For a node the backends are
  tried in their order: a backend is passed over if the kind of the node is among its
  non-supported kinds, or if its supported kinds are not empty and do not hold the kind;
  it is taken if it lowers the node or supports it. \<open>backendMap_[name]\<close> reads the entry
  of the name, the value-initialised one if there is none.
\<close>

fun findBackend :: "BackendMap \<Rightarrow> Backend list \<Rightarrow> Node \<Rightarrow> string option" where
  "findBackend bm [] N = None"
| "findBackend bm (b # bs) N =
     (if getKind N \<in> nonSupportedNodesKinds (at bm (getBackendName b)) then
        findBackend bm bs N
      else if supportedNodesKinds (at bm (getBackendName b)) \<noteq> {}
              \<and> getKind N \<notin> supportedNodesKinds (at bm (getBackendName b)) then
        findBackend bm bs N
      else if shouldLower b N \<or> isOpSupported b N then Some (getBackendName b)
      else findBackend bm bs N)"

text \<open>
  The loop over the nodes: the backend found is recorded in \<open>nodeToBackendName\<close>; a node
  without an entry after the search ends the function with an error.
\<close>

fun assignBackends ::
  "BackendMap \<Rightarrow> Backend list \<Rightarrow> Node list \<Rightarrow> (Node \<rightharpoonup> string) \<Rightarrow> GlowErr + (Node \<rightharpoonup> string)" where
  "assignBackends bm backends [] nodeToBackendName = Inr nodeToBackendName"
| "assignBackends bm backends (N # Ns) nodeToBackendName =
     (let nodeToBackendName1 =
            (case findBackend bm backends N of
               None \<Rightarrow> nodeToBackendName
             | Some b \<Rightarrow> nodeToBackendName(N \<mapsto> b))
      in if nodeToBackendName1 N = None then
           Inl (MAKE_ERR ''Node is not supported by any of the provided backends'')
         else assignBackends bm backends Ns nodeToBackendName1)"

text \<open>
  \<open>Partitioner::backendBasedPartition\<close>: the assignment, then the colouring of the BFS
  levels and \<open>doPartitioning\<close>, which are a parameter.
\<close>

definition backendBasedPartition ::
  "Externals \<Rightarrow> Partitioner \<Rightarrow> FunctionToBackendNameMap \<Rightarrow> Function \<Rightarrow> Backend list
     \<Rightarrow> CompilationContext \<Rightarrow> (DAGListTy \<times> FunctionToBackendNameMap \<times> Partitioner) outcome" where
  "backendBasedPartition ext P funcToBackend F backends cctx =
     (case assignBackends (backendMap' P) backends (getNodes F) Map.empty of
        Inl e \<Rightarrow> Failure e
      | Inr nodeToBackendName \<Rightarrow>
          backendBasedPartitionRest ext P nodeToBackendName funcToBackend F cctx)"

section \<open>Memory-driven partition\<close>

text \<open>
  \<open>std::to_string\<close> of a count: its decimal digits. The counter \<open>color\<close> is an \<open>int\<close> that
  starts at 0 and is incremented once for each function created; it is a natural number
  here, as it stays below the number of nodes plus two.
\<close>

definition digit :: "nat \<Rightarrow> char" where
  "digit n = char_of (48 + n)"

function to_string :: "nat \<Rightarrow> string" where
  "to_string n = (if n < 10 then [digit n] else to_string (n div 10) @ [digit (n mod 10)])"
  by pat_completeness auto
termination
  by (relation "measure id") auto

declare to_string.simps [simp del]


text \<open>
  The state of the walk of \<open>Partitioner::selectPartitions\<close>: the module, in which the
  sub-functions are created, the mapping, the counter \<open>color\<close>, the current function
  \<open>newF\<close>, the node set \<open>currentPartition\<close> and its memory information \<open>graphMem\<close>.
\<close>

record selectState =
  parent :: Module
  mapping :: NodeToFunctionMap
  color :: nat
  newF :: string
  currentPartition :: "Node set"
  graphMem :: GraphMemInfo










section \<open>The partition flows\<close>

definition onlyOneFunction :: "string \<Rightarrow> nat \<Rightarrow> GlowErr" where
  "onlyOneFunction flow n =
     MAKE_ERR (''Invalid : '' @ to_string n @ '' functions in a module. '' @ flow
               @ '' partition flow, the module can only contain 1 function'')"

text \<open>
  \<open>Partitioner::heterogeneousPartition\<close>, up to the point where the function is cut:
  steps 2 to 6 are a parameter. \<open>F_->getName()\<close> dereferences the representative function,
  which is null when the module has no function.
\<close>

definition heterogeneousPartition ::
  "Externals \<Rightarrow> Options \<Rightarrow> Partitioner \<Rightarrow> CompilationContext
     \<Rightarrow> (DAGListTy \<times> Partitioner) outcome" where
  "heterogeneousPartition ext opts P cctx =
     (case genBackendMap ext P (backendMap' P) (backendHolder P) [] of
        Abort \<Rightarrow> Abort
      | Failure e \<Rightarrow> Failure e
      | Success (bm, holder, backends) \<Rightarrow>
          (let P1 = P\<lparr>backendMap' := bm, backendHolder := holder\<rparr>;
               rep = selectRepFunc (module' P1) (memSize' P1);
               P2 = P1\<lparr>F' := fst rep, memSize' := snd rep\<rparr>
           in case F' P2 of
                None \<Rightarrow> Abort
              | Some F \<Rightarrow>
                  (if length backends = 1 then
                     (let bname = getBackendName (backends ! 0);
                          funcToBackend = [funName F \<mapsto> bname]
                      in if memSize' P2 < memSize (at (backendMap' P2) bname) then
                           createDAGWithoutPartition ext opts P2 bname (backendMap' P2) cctx
                         else if length (getFunctions (module' P2)) \<noteq> 1 then
                           Failure (onlyOneFunction ''Now in heterogeneous''
                                      (length (getFunctions (module' P2))))
                         else heterogeneousRest ext P2 backends funcToBackend [] cctx)
                   else if length (getFunctions (module' P2)) \<noteq> 1 then
                     Failure (onlyOneFunction ''Now in heterogeneous''
                                (length (getFunctions (module' P2))))
                   else
                     (case backendBasedPartition ext P2 Map.empty F backends cctx of
                        Abort \<Rightarrow> Abort
                      | Failure e \<Rightarrow> Failure e
                      | Success (partitions, funcToBackend, P3) \<Rightarrow>
                          heterogeneousRest ext
                            (P3\<lparr>module' := eraseFunction (module' P3) F\<rparr>)
                            backends funcToBackend partitions cctx))))"

text \<open>
  \<open>Partitioner::loadBalancedPartition\<close>: the check of the number of functions, the
  delegation for several backend names, then the load-balanced placement, a parameter.
\<close>

definition loadBalancedPartition ::
  "Externals \<Rightarrow> Options \<Rightarrow> Partitioner \<Rightarrow> CompilationContext \<Rightarrow> 64 word
     \<Rightarrow> (DAGListTy \<times> Partitioner) outcome" where
  "loadBalancedPartition ext opts P cctx numDevices =
     (if length (getFunctions (module' P)) \<noteq> 1 then
        Failure (onlyOneFunction ''Now in load-balanced'' (length (getFunctions (module' P))))
      else if multiBackendNames' P then heterogeneousPartition ext opts P cctx
      else loadBalancedRest ext P cctx numDevices)"

text \<open>
  \<open>Partitioner::quantizationProfilingPartition\<close>, up to \<open>backendBasedPartition\<close>; the
  optimization of the sub-functions for the profiling backend is a parameter.
\<close>

definition quantizationProfilingPartition ::
  "Externals \<Rightarrow> Options \<Rightarrow> Partitioner \<Rightarrow> CompilationContext
     \<Rightarrow> (DAGListTy \<times> Partitioner) outcome" where
  "quantizationProfilingPartition ext opts P cctx =
     (if length (getFunctions (module' P)) \<noteq> 1 then
        Failure (onlyOneFunction ''In quantization profiling''
                   (length (getFunctions (module' P))))
      else
        (case genBackendMap ext P (backendMap' P) (backendHolder P) [] of
           Abort \<Rightarrow> Abort
         | Failure e \<Rightarrow> Failure e
         | Success (bm, holder, backends) \<Rightarrow>
             (let P1 = P\<lparr>backendMap' := bm, backendHolder := holder\<rparr>;
                  rep = selectRepFunc (module' P1) (memSize' P1);
                  P2 = P1\<lparr>F' := fst rep, memSize' := snd rep\<rparr>
              in case F' P2 of
                   None \<Rightarrow> Abort
                 | Some F \<Rightarrow>
                     (case backendBasedPartition ext P2 Map.empty F backends cctx of
                        Abort \<Rightarrow> Abort
                      | Failure e \<Rightarrow> Failure e
                      | Success (partitions, funcToBackend, P3) \<Rightarrow>
                          quantizationProfilingRest ext
                            (P3\<lparr>module' := eraseFunction (module' P3) F\<rparr>)
                            partitions cctx))))"

text \<open>
  \<open>Partitioner::partitionFromConfig\<close>, up to the \<open>DCHECK\<close> of the sizes of the
  configuration; the rest is a parameter. The message of the error for a function that
  is not found is formatted from \<open>F->getName()\<close>, and it is formatted only when \<open>F\<close> is
  null: the null pointer is dereferenced before there is an error to return.
\<close>

definition partitionFromConfig ::
  "Externals \<Rightarrow> Options \<Rightarrow> Partitioner \<Rightarrow> PartitionConfig
     \<Rightarrow> (DAGListTy \<times> Partitioner) outcome" where
  "partitionFromConfig ext opts P partitionConfig =
     (case genBackendMap ext P (backendMap' P) (backendHolder P) [] of
        Abort \<Rightarrow> Abort
      | Failure e \<Rightarrow> Failure e
      | Success (bm, holder, backends) \<Rightarrow>
          (let P1 = P\<lparr>backendMap' := bm, backendHolder := holder\<rparr> in
           case getFunction (module' P1) (funcName partitionConfig) of
             None \<Rightarrow> Abort
           | Some F \<Rightarrow>
               (if \<not> (unat (numOfPartitions partitionConfig)
                          = length (backendNames partitionConfig)
                        \<and> unat (numOfPartitions partitionConfig)
                          = length (partitionNames partitionConfig)) then Abort
                else partitionFromConfigRest ext P1 F partitionConfig)))"

text \<open>
  \<open>Partitioner::partition\<close>. \<open>loadBalancedPartition(cctx)\<close> is called with the default of
  its second parameter, 0.
\<close>

definition partition ::
  "Externals \<Rightarrow> Options \<Rightarrow> Partitioner \<Rightarrow> CompilationContext
     \<Rightarrow> (DAGListTy \<times> Partitioner) outcome" where
  "partition ext opts P cctx =
     (if enabled (partitionConfig' P) then
        partitionFromConfig ext opts P (partitionConfig' P)
      else if quantMode (precisionConfig cctx) = Profile then
        quantizationProfilingPartition ext opts P cctx
      else if \<not> multiBackendNames' P \<and> GlowEnableLoadBalancedPartitioning opts then
        loadBalancedPartition ext opts P cctx 0
      else heterogeneousPartition ext opts P cctx)"

section \<open>Notions the claims are stated with\<close>

text \<open>The number of devices of a backend, and a \<open>BackendInfo\<close> whose data are those of a device.\<close>

definition countBackend :: "string \<Rightarrow> DeviceInfo list \<Rightarrow> nat" where
  "countBackend b ds = length (filter (\<lambda>d. backendName d = b) ds)"

definition copiedFrom :: "Externals \<Rightarrow> DeviceInfo \<Rightarrow> BackendInfo \<Rightarrow> bool" where
  "copiedFrom ext d info =
     (memSize info = availableMemory d
      \<and> infoPeakDramBw info = peakDramBw d
      \<and> infoPeakSramBw info = peakSramBw d
      \<and> infoSramCapacity info = sramCapacity d
      \<and> infoPeakCompute info = peakCompute d
      \<and> nonSupportedNodesKinds info = generateNodeKindsSet ext (nonSupportedNodes d)
      \<and> supportedNodesKinds info = generateNodeKindsSet ext (supportedNodes d))"

text \<open>
  Saturation as the specification words it, on unbounded numbers: with \<open>D\<close> devices and
  \<open>k\<close> logical devices, for each existing \<open>L\<close> of a node and each \<open>i\<close> in \<open>[1, D / k)\<close> the ID
  \<open>L + i * k\<close> is appended.
\<close>

definition saturatedIDs :: "nat \<Rightarrow> nat \<Rightarrow> nat list \<Rightarrow> nat list" where
  "saturatedIDs D k ls = ls @ concat (map (\<lambda>L. map (\<lambda>i. L + i * k) [1 ..< D div k]) ls)"

text \<open>The new IDs of a node fit the \<open>unsigned\<close> vector they are collected in.\<close>

definition fitsUnsigned :: "nat \<Rightarrow> nat \<Rightarrow> DAGNode \<Rightarrow> bool" where
  "fitsUnsigned D k node =
     list_all (\<lambda>L. unat L + (D div k - 1) * k < 2 ^ 32) (logicalDevices node)"

text \<open>
  What \<open>saturateHost\<close> makes of a node of \<open>DAG.nodes\<close>: only its logical devices change;
  when \<open>D / k\<close> is at least 2 their number is multiplied by \<open>D / k\<close>, and they are the IDs
  of the specification if those fit; otherwise the node is left as it is.
\<close>

definition saturated :: "nat \<Rightarrow> nat \<Rightarrow> DAGNode \<Rightarrow> DAGNode \<Rightarrow> bool" where
  "saturated D k node node1 =
     (node1 = node\<lparr>logicalDevices := logicalDevices node1\<rparr>
      \<and> (if 2 \<le> D div k then
            length (logicalDevices node1) = length (logicalDevices node) * (D div k)
            \<and> (fitsUnsigned D k node \<longrightarrow>
                  map unat (logicalDevices node1)
                    = saturatedIDs D k (map unat (logicalDevices node)))
          else node1 = node))"

section \<open>Sample data\<close>

definition deviceA :: "64 word \<Rightarrow> DeviceInfo" where
  "deviceA mem = \<lparr>availableMemory = mem, backendName = ''A'', nonSupportedNodes = [],
     supportedNodes = [], sramCapacity = 0, peakCompute = 0, peakDramBw = 0,
     peakSramBw = 0, peakPCIeBw = 0\<rparr>"

definition deviceB :: "64 word \<Rightarrow> DeviceInfo" where
  "deviceB mem = (deviceA mem)\<lparr>backendName := ''B''\<rparr>"

text \<open>A backend that lowers nothing and supports every node but those of kind 7.\<close>

definition sampleBackend :: "string \<Rightarrow> Backend" where
  "sampleBackend n = \<lparr>getBackendName = n, shouldLower = (\<lambda>N. False),
     isOpSupported = (\<lambda>N. getKind N \<noteq> OtherKind 7)\<rparr>"

definition sampleExternals :: Externals where
  "sampleExternals = \<lparr>createBackend = sampleBackend,
     generateNodeKindsSet = (\<lambda>s. if s = [] then {} else {OtherKind 1}),
     optimizeFunction = (\<lambda>F b cctx. Inr F),
     verifyFunction = (\<lambda>F. True),
     getBFSLevel = (\<lambda>F. [rev (getNodes F)]),
     updateGraphMemInfoByAddingNode =
       (\<lambda>cur g N. g\<lparr>inMemSize := inMemSize g + 40\<rparr>),
     optimizeCommunicationCost = (\<lambda>partitions nodesSet m avail. (partitions, nodesSet, m)),
     partitionsCombine = (\<lambda>partitions nodesSet m avail. (partitions, nodesSet, m)),
     backendBasedPartitionRest = (\<lambda>P m fb F cctx. Success ([], fb, P)),
     quantizationProfilingRest = (\<lambda>P ps cctx. Success (ps, P)),
     heterogeneousRest = (\<lambda>P bs fb ps cctx. Success (ps, P)),
     loadBalancedRest = (\<lambda>P cctx n. Success ([], P)),
     partitionFromConfigRest = (\<lambda>P F c. Success ([], P))\<rparr>"

definition sampleOptions :: Options where
  "sampleOptions = \<lparr>GlowEnableLoadBalancedPartitioning = False, logPartition = False,
     dumpPartition = False\<rparr>"

definition sampleNode :: "string \<Rightarrow> nat \<Rightarrow> Node" where
  "sampleNode n k = \<lparr>getKind = OtherKind k, getName = n,
     inputs = [PlaceholderInput ''input'' 16]\<rparr>"

definition sampleFunction :: "string \<Rightarrow> Function" where
  "sampleFunction n = \<lparr>funName = n,
     getNodes = [sampleNode ''conv'' 2, sampleNode ''relu'' 3,
       \<lparr>getKind = SaveNodeKind, getName = ''save'', inputs = [OtherInput ''relu'']\<rparr>]\<rparr>"

definition sampleModule :: Module where
  "sampleModule = \<lparr>getFunctions = [sampleFunction ''main''], getConstantsSize = 100\<rparr>"

text \<open>Two devices of backend A, the first with 1000 bytes, the second with 500.\<close>

definition twoDevices :: "DeviceInfo list" where
  "twoDevices = [deviceA 1000, deviceA 500]"

definition samplePartitioner :: Partitioner where
  "samplePartitioner = Partitioner_backends sampleModule twoDevices [] False True"

text \<open>The same, asked to saturate the host.\<close>

definition saturatingPartitioner :: Partitioner where
  "saturatingPartitioner = Partitioner_backends sampleModule twoDevices [] True True"

text \<open>The DAG of the unsplit function \<open>main\<close> on backend A, and the same after saturation.\<close>

definition wholeDAG :: DAG where
  "wholeDAG = wholeFunctionDAG ''main'' ''A''"

definition saturatedWholeDAG :: DAG where
  "saturatedWholeDAG =
     wholeDAG\<lparr>nodes := map (\<lambda>n. n\<lparr>logicalDevices := [0, 1]\<rparr>) (nodes wholeDAG)\<rparr>"

text \<open>All devices share one backend name.\<close>

definition shareOneBackend :: "DeviceInfo list \<Rightarrow> bool" where
  "shareOneBackend ds = (\<forall>d \<in> set ds. \<forall>e \<in> set ds. backendName d = backendName e)"

text \<open>
  A partitioner for one device of backend A and one of backend B, on the sample module
  and on a module of two functions; a configuration that names a function the module
  does not have.
\<close>

definition mixedDevices :: "DeviceInfo list" where
  "mixedDevices = [deviceA 1000, deviceB 1000]"

definition mixedPartitioner :: Partitioner where
  "mixedPartitioner = Partitioner_backends sampleModule mixedDevices [] False True"

definition twoFunctionModule :: Module where
  "twoFunctionModule =
     \<lparr>getFunctions = [sampleFunction ''main'', sampleFunction ''other''],
      getConstantsSize = 100\<rparr>"

definition mixedTwoFunctionPartitioner :: Partitioner where
  "mixedTwoFunctionPartitioner =
     Partitioner_backends twoFunctionModule mixedDevices [] False True"

definition missingConfig :: PartitionConfig where
  "missingConfig = make_PartitionConfig\<lparr>funcName := ''missing'', numOfPartitions := 1,
     backendNames := [''A''], partitionNames := [''p1'']\<rparr>"

definition missingConfigPartitioner :: Partitioner where
  "missingConfigPartitioner =
     Partitioner_config sampleModule twoDevices False True missingConfig"

text \<open>
  A backend accepts a node, in the words of the specification: the kind of the node is
  not among the non-supported kinds of the backend, the supported kinds of the backend
  are empty or hold the kind, and the backend lowers the node or reports it supported.
\<close>

definition accepts :: "BackendMap \<Rightarrow> Node \<Rightarrow> Backend \<Rightarrow> bool" where
  "accepts bm N b =
     (getKind N \<notin> nonSupportedNodesKinds (at bm (getBackendName b))
      \<and> (supportedNodesKinds (at bm (getBackendName b)) = {}
           \<or> getKind N \<in> supportedNodesKinds (at bm (getBackendName b)))
      \<and> (shouldLower b N \<or> isOpSupported b N))"

text \<open>The first backend, in the declared order, that accepts the node.\<close>

definition firstAccepting :: "BackendMap \<Rightarrow> Backend list \<Rightarrow> Node \<Rightarrow> string option" where
  "firstAccepting bm backends N = map_option getBackendName (find (accepts bm N) backends)"

text \<open>
  A backend map in which backend A does not take nodes of kind 2, and a function with a
  node of kind 7, which the sample backends do not support.
\<close>

definition sampleBackendMap :: BackendMap where
  "sampleBackendMap =
     [''A'' \<mapsto> make_BackendInfo\<lparr>num := 1, nonSupportedNodesKinds := {OtherKind 2},
                 backend := Some (sampleBackend ''A'')\<rparr>,
      ''B'' \<mapsto> make_BackendInfo\<lparr>num := 1, backend := Some (sampleBackend ''B'')\<rparr>]"

text \<open>
  The entry of backend A in the backend map of the two sample devices, with a given
  number of devices: the fields are those of the first device.
\<close>

definition sampleInfo :: "nat \<Rightarrow> BackendInfo" where
  "sampleInfo k = \<lparr>num = k, memSize = 1000, infoPeakDramBw = 0, infoPeakSramBw = 0,
     infoSramCapacity = 0, infoPeakCompute = 0, nonSupportedNodesKinds = {},
     supportedNodesKinds = {}, backend = Some (sampleBackend ''A'')\<rparr>"

definition unsupportedFunction :: Function where
  "unsupportedFunction = \<lparr>funName = ''main'',
     getNodes = [sampleNode ''conv'' 2, sampleNode ''softmax'' 7]\<rparr>"

text \<open>
  The DAG of an unsplit function: a root without backend that names the function, and
  one child for the function on its backend, with the given logical devices.
\<close>

definition unsplitDAG :: "string \<Rightarrow> string \<Rightarrow> DeviceIDTy list \<Rightarrow> DAG" where
  "unsplitDAG fname bname ls =
     \<lparr>root = make_DAGNode\<lparr>children := [NodeRef 0], logicalDevices := [0], dagName := fname\<rparr>,
      nodes = [make_DAGNode\<lparr>parents := [RootRef], dagBackendName := bname,
                 logicalDevices := ls, dagName := fname\<rparr>]\<rparr>"

text \<open>
  The logical devices of the child: device 0, or every device when the host is to be
  saturated.
\<close>

definition childDevices :: "Partitioner \<Rightarrow> DeviceIDTy list" where
  "childDevices P =
     (if saturateHost' P then map of_nat [0 ..< length (deviceInfo' P)] else [0])"

text \<open>
  The backend of the only backend name: the first of the backends given to the
  partitioner, or else the one created for the name.
\<close>

definition givenBackend :: "Externals \<Rightarrow> Partitioner \<Rightarrow> string \<Rightarrow> Backend" where
  "givenBackend ext P bname =
     (if backends' P = [] then createBackend ext bname else backends' P ! 0)"

text \<open>The functions of a module after \<open>optimizeFunction\<close> has succeeded on each of them.\<close>

fun optimizeAll ::
  "Externals \<Rightarrow> Backend \<Rightarrow> CompilationContext \<Rightarrow> Function list \<Rightarrow> Function list option" where
  "optimizeAll ext b cctx [] = Some []"
| "optimizeAll ext b cctx (F # Fs) =
     (case optimizeFunction ext F b cctx of
        Inl e \<Rightarrow> None
      | Inr F1 \<Rightarrow> map_option ((#) F1) (optimizeAll ext b cctx Fs))"






section \<open>Round-robin device choice\<close>

lemma getNextDevice_Some:
  assumes "deviceIDs n \<noteq> []"
  shows "getNextDevice n =
    Some (deviceIDs n ! (unat (currentDeviceIdx n + 1) mod length (deviceIDs n)),
          n\<lparr>currentDeviceIdx := currentDeviceIdx n + 1\<rparr>)"
  using assms by (simp add: getNextDevice_def Let_def)

text \<open>
  C1, as the claim states it, fails: on the fresh node \<open>twoDeviceNode\<close> (index 0, device
  IDs 10 and 20) the first call does not return \<open>deviceIDs[0 mod 2] = 10\<close>; it returns 20.
\<close>

theorem getNextDevice_first_call_counterexample:
  "currentDeviceIdx twoDeviceNode = 0
   \<and> deviceIDs twoDeviceNode ! (unat (currentDeviceIdx twoDeviceNode)
        mod length (deviceIDs twoDeviceNode)) = 10
   \<and> map_option fst (getNextDevice twoDeviceNode) = Some 20"
  by (simp add: twoDeviceNode_def make_DAGNode_def getNextDevice_def Let_def)

text \<open>
  C1 (amended): for every \<open>DAGNode\<close> whose \<open>deviceIDs\<close> list is non-empty, a call to
  \<open>getNextDevice\<close> first increments \<open>currentDeviceIdx\<close> by one, wrapping at \<open>2 ^ 32\<close>, and
  returns \<open>deviceIDs[j mod deviceIDs.size()]\<close> where \<open>j\<close> is the incremented index; nothing
  else of the node changes. In particular the first call on a fresh node
  (\<open>currentDeviceIdx = 0\<close>) returns \<open>deviceIDs[1 mod deviceIDs.size()]\<close>.
\<close>

theorem getNextDevice_round_robin:
  assumes "deviceIDs n \<noteq> []"
  shows "\<exists>d n'. getNextDevice n = Some (d, n')
     \<and> unat (currentDeviceIdx n') = (unat (currentDeviceIdx n) + 1) mod 2 ^ 32
     \<and> d = deviceIDs n ! (unat (currentDeviceIdx n') mod length (deviceIDs n))
     \<and> d \<in> set (deviceIDs n)
     \<and> n' = n\<lparr>currentDeviceIdx := currentDeviceIdx n + 1\<rparr>
     \<and> (currentDeviceIdx n = 0 \<longrightarrow> d = deviceIDs n ! (1 mod length (deviceIDs n)))"
proof -
  let ?n' = "n\<lparr>currentDeviceIdx := currentDeviceIdx n + 1\<rparr>"
  let ?d = "deviceIDs n ! (unat (currentDeviceIdx n + 1) mod length (deviceIDs n))"
  have len: "0 < length (deviceIDs n)" using assms by simp
  have call: "getNextDevice n = Some (?d, ?n')"
    by (rule getNextDevice_Some [OF assms])
  have wrap: "unat (currentDeviceIdx ?n') = (unat (currentDeviceIdx n) + 1) mod 2 ^ 32"
    by (simp add: unat_word_ariths)
  have mem: "?d \<in> set (deviceIDs n)"
    using len by simp
  have first: "currentDeviceIdx n = 0 \<longrightarrow> ?d = deviceIDs n ! (1 mod length (deviceIDs n))"
    by simp
  show ?thesis using call wrap mem first by simp
qed

theorem getNextDevice_round_robin_witness:
  "\<exists>d n'. getNextDevice twoDeviceNode = Some (d, n')
     \<and> unat (currentDeviceIdx n') = 1 \<and> d = 20"
proof -
  have ne: "deviceIDs twoDeviceNode \<noteq> []"
    by (simp add: twoDeviceNode_def make_DAGNode_def)
  from getNextDevice_round_robin [OF ne]
  obtain d n' where h: "getNextDevice twoDeviceNode = Some (d, n')"
      "unat (currentDeviceIdx n') = (unat (currentDeviceIdx twoDeviceNode) + 1) mod 2 ^ 32"
      "d = deviceIDs twoDeviceNode ! (unat (currentDeviceIdx n') mod length (deviceIDs twoDeviceNode))"
    by blast
  have idx: "unat (currentDeviceIdx n') = 1"
    using h(2) by (simp add: twoDeviceNode_def make_DAGNode_def)
  have "d = 20"
    using h(3) idx by (simp add: twoDeviceNode_def make_DAGNode_def)
  with h(1) idx show ?thesis by blast
qed

section \<open>Order of the inference queue\<close>

lemma operator_gt_lex:
  "operator_gt a b \<longleftrightarrow>
     priority b < priority a \<or> (priority a = priority b \<and> requestID b < requestID a)"
  by (auto simp: operator_gt_def)

lemma not_gt_trans:
  "\<not> operator_gt a b \<Longrightarrow> \<not> operator_gt b c \<Longrightarrow> \<not> operator_gt a c"
  by (auto simp: operator_gt_def split: if_splits)

lemma not_gt_total: "operator_gt a b \<Longrightarrow> \<not> operator_gt b a"
  by (auto simp: operator_gt_def split: if_splits)

lemma top_from_mem: "top_from b xs \<in> set (b # xs)"
  by (induction xs arbitrary: b) auto

lemma top_from_le_start: "\<not> operator_gt (top_from b xs) b"
proof (induction xs arbitrary: b)
  case Nil
  show ?case by (simp add: operator_gt_def)
next
  case (Cons x xs)
  show ?case
  proof (cases "std_greater b x")
    case True
    then have "\<not> operator_gt x b" by (simp add: std_greater_def not_gt_total)
    moreover have "\<not> operator_gt (top_from x xs) x" by (rule Cons)
    ultimately have "\<not> operator_gt (top_from x xs) b" by (rule not_gt_trans [rotated])
    with True show ?thesis by simp
  next
    case False
    with Cons [of b] show ?thesis by simp
  qed
qed

lemma top_from_least: "x \<in> set (b # xs) \<Longrightarrow> \<not> operator_gt (top_from b xs) x"
proof (induction xs arbitrary: b)
  case Nil
  then show ?case by (simp add: operator_gt_def)
next
  case (Cons y ys)
  let ?b' = "if std_greater b y then y else b"
  have start: "\<not> operator_gt (top_from ?b' ys) ?b'" by (rule top_from_le_start)
  consider "x = b" | "x = y" | "x \<in> set ys" using Cons.prems by auto
  then show ?case
  proof cases
    case 1
    have "\<not> operator_gt ?b' b" by (auto simp: std_greater_def not_gt_total operator_gt_def)
    with start have "\<not> operator_gt (top_from ?b' ys) b" by (rule not_gt_trans)
    with 1 show ?thesis by simp
  next
    case 2
    have "\<not> operator_gt ?b' y" by (auto simp: std_greater_def operator_gt_def)
    with start have "\<not> operator_gt (top_from ?b' ys) y" by (rule not_gt_trans)
    with 2 show ?thesis by simp
  next
    case 3
    then have "x \<in> set (?b' # ys)" by simp
    from Cons.IH [OF this] show ?thesis by simp
  qed
qed

lemma top_Some_mem: "top q = Some t \<Longrightarrow> t \<in> set q"
  using top_from_mem by (auto simp: top_def split: list.splits)

lemma top_Some_least: "top q = Some t \<Longrightarrow> x \<in> set q \<Longrightarrow> \<not> operator_gt t x"
  using top_from_least by (auto simp: top_def split: list.splits)

lemma top_None: "top q = None \<longleftrightarrow> q = []"
  by (simp add: top_def split: list.splits)

lemma drain_n_mset: "length q \<le> n \<Longrightarrow> mset (drain_n n q) = mset q"
proof (induction n arbitrary: q)
  case 0
  then show ?case by simp
next
  case (Suc n)
  show ?case
  proof (cases "top q")
    case None
    then show ?thesis by (simp add: top_def split: list.splits)
  next
    case (Some t)
    then have mem: "t \<in> set q" by (rule top_Some_mem)
    then have "length (remove1 t q) \<le> n" using Suc.prems by (simp add: length_remove1)
    from Suc.IH [OF this] Some mem show ?thesis by (simp add: pop_def)
  qed
qed

lemma drain_n_subset: "set (drain_n n q) \<subseteq> set q"
proof (induction n arbitrary: q)
  case 0
  show ?case by simp
next
  case (Suc n)
  show ?case
  proof (cases "top q")
    case None
    then show ?thesis by simp
  next
    case (Some t)
    have "set (drain_n n (remove1 t q)) \<subseteq> set (remove1 t q)" by (rule Suc.IH)
    also have "\<dots> \<subseteq> set q" by (rule set_remove1_subset)
    finally show ?thesis using Some top_Some_mem [OF Some] by (simp add: pop_def)
  qed
qed

lemma drain_n_sorted: "sorted_wrt (\<lambda>x y. \<not> operator_gt x y) (drain_n n q)"
proof (induction n arbitrary: q)
  case 0
  show ?case by simp
next
  case (Suc n)
  show ?case
  proof (cases "top q")
    case None
    then show ?thesis by simp
  next
    case (Some t)
    have "\<forall>x \<in> set (drain_n n (remove1 t q)). \<not> operator_gt t x"
      using top_Some_least [OF Some] drain_n_subset [of n "remove1 t q"]
            set_remove1_subset [of t q] by blast
    with Suc.IH [of "remove1 t q"] Some show ?thesis by (simp add: pop_def)
  qed
qed

lemma dispatchedBefore_gt: "dispatchedBefore r1 r2 \<Longrightarrow> operator_gt r2 r1"
  by (auto simp: dispatchedBefore_def operator_gt_def)

lemma top_not_later:
  assumes "r1 \<in> set q" and "dispatchedBefore r1 r2"
  shows "top q \<noteq> Some r2"
  using top_Some_least [of q r2 r1] assms dispatchedBefore_gt by blast

lemma drain_order:
  assumes "r1 \<in> set q" and "r2 \<in> set q" and "dispatchedBefore r1 r2"
  shows "\<exists>xs ys. drain q = xs @ r1 # ys \<and> r2 \<notin> set xs \<and> r2 \<in> set ys"
proof -
  have ms: "mset (drain q) = mset q" by (simp add: drain_def drain_n_mset)
  then have seteq: "set (drain q) = set q" by (metis set_mset_mset)
  have srt: "sorted_wrt (\<lambda>x y. \<not> operator_gt x y) (drain q)"
    by (simp add: drain_def drain_n_sorted)
  from assms(1) seteq obtain xs ys where split: "drain q = xs @ r1 # ys"
    by (metis split_list)
  have gt: "operator_gt r2 r1" by (rule dispatchedBefore_gt [OF assms(3)])
  have "r2 \<notin> set xs"
  proof
    assume "r2 \<in> set xs"
    with srt split have "\<not> operator_gt r2 r1" by (auto simp: sorted_wrt_append)
    with gt show False by simp
  qed
  moreover have "r2 \<noteq> r1" using gt by (auto simp: operator_gt_def)
  moreover have "r2 \<in> set (drain q)" using assms(2) seteq by simp
  ultimately have "r2 \<in> set ys" using split by auto
  with \<open>r2 \<notin> set xs\<close> split show ?thesis by blast
qed

text \<open>
  C2: for any two requests \<open>r1\<close>, \<open>r2\<close> present in the inference queue, \<open>r1\<close> is dequeued
  before \<open>r2\<close> if \<open>priority(r1) < priority(r2)\<close>, and, when the priorities are equal, if
  the request ID of \<open>r1\<close> is the smaller one: while \<open>r1\<close> is pending, \<open>top\<close> is never
  \<open>r2\<close>, and draining the queue yields \<open>r1\<close> before any occurrence of \<open>r2\<close>. The
  comparison \<open>operator>\<close> is the strict lexicographic order on (priority, request ID),
  and the queue is dequeued in ascending order of it, every pending request once.
\<close>

theorem inferQueue_priority_order:
  "(operator_gt a b \<longleftrightarrow>
      priority b < priority a \<or> (priority a = priority b \<and> requestID b < requestID a))
   \<and> mset (drain q) = mset q
   \<and> sorted_wrt (\<lambda>x y. \<not> operator_gt x y) (drain q)
   \<and> (r1 \<in> set q \<and> r2 \<in> set q \<and> dispatchedBefore r1 r2 \<longrightarrow>
        top q \<noteq> Some r2
        \<and> (\<exists>xs ys. drain q = xs @ r1 # ys \<and> r2 \<notin> set xs \<and> r2 \<in> set ys))"
proof -
  have "mset (drain q) = mset q" by (simp add: drain_def drain_n_mset)
  moreover have "sorted_wrt (\<lambda>x y. \<not> operator_gt x y) (drain q)"
    by (simp add: drain_def drain_n_sorted)
  ultimately show ?thesis
    using operator_gt_lex [of a b] top_not_later [of r1 q r2] drain_order [of r1 q r2]
    by blast
qed

theorem inferQueue_priority_order_witness:
  "drain (push request2 (push request1 (push request0 []))) = [request1, request2, request0]
   \<and> top (push request2 (push request1 (push request0 []))) \<noteq> Some request0
   \<and> (\<exists>xs ys. drain (push request2 (push request1 (push request0 []))) = xs @ request1 # ys
         \<and> request2 \<notin> set xs \<and> request2 \<in> set ys)"
proof -
  let ?q = "push request2 (push request1 (push request0 []))"
  have q: "?q = [request0, request1, request2]" by (simp add: push_def)
  have mem: "request0 \<in> set ?q \<and> request1 \<in> set ?q \<and> request2 \<in> set ?q"
    by (simp add: q)
  have "dispatchedBefore request1 request2"
    by (simp add: dispatchedBefore_def request1_def request2_def)
  with mem have pre:
    "request1 \<in> set ?q \<and> request2 \<in> set ?q \<and> dispatchedBefore request1 request2"
    by simp
  have "dispatchedBefore request1 request0"
    by (simp add: dispatchedBefore_def request1_def request0_def)
  with mem have pre0:
    "request1 \<in> set ?q \<and> request0 \<in> set ?q \<and> dispatchedBefore request1 request0"
    by simp
  have "drain [request0, request1, request2] = [request1, request2, request0]"
    by (simp add: drain_def numeral_3_eq_3 top_def pop_def std_greater_def operator_gt_def
          request0_def request1_def request2_def)
  then have d: "drain ?q = [request1, request2, request0]"
    by (simp only: q)
  show ?thesis
    using inferQueue_priority_order [of _ _ ?q request1 request2] pre
          inferQueue_priority_order [of _ _ ?q request1 request0] pre0 d
    by blast
qed

section \<open>Selection of the partition flow\<close>

lemma init_loop_iff:
  "init_loop ds i e \<longleftrightarrow> (\<exists>j. i \<le> j \<and> j < e \<and> backendName (ds ! j) \<noteq> backendName (ds ! 0))"
proof (induction ds i e rule: init_loop.induct)
  case (1 ds i e)
  show ?case
  proof (cases "i < e")
    case False
    then show ?thesis by (simp add: init_loop.simps [of ds i e])
  next
    case True
    show ?thesis
    proof (cases "backendName (ds ! i) \<noteq> backendName (ds ! 0)")
      case differs: True
      then have "init_loop ds i e" using True by (simp add: init_loop.simps [of ds i e])
      moreover have "\<exists>j. i \<le> j \<and> j < e \<and> backendName (ds ! j) \<noteq> backendName (ds ! 0)"
        using True differs by blast
      ultimately show ?thesis by simp
    next
      case same: False
      then have "init_loop ds i e = init_loop ds (i + 1) e"
        using True by (simp add: init_loop.simps [of ds i e])
      also have "\<dots> \<longleftrightarrow>
          (\<exists>j. i + 1 \<le> j \<and> j < e \<and> backendName (ds ! j) \<noteq> backendName (ds ! 0))"
        using "1.IH" True same by simp
      also have "\<dots> \<longleftrightarrow>
          (\<exists>j. i \<le> j \<and> j < e \<and> backendName (ds ! j) \<noteq> backendName (ds ! 0))"
      proof
        assume "\<exists>j. i + 1 \<le> j \<and> j < e \<and> backendName (ds ! j) \<noteq> backendName (ds ! 0)"
        then obtain j where "i + 1 \<le> j" "j < e" "backendName (ds ! j) \<noteq> backendName (ds ! 0)"
          by blast
        then have "i \<le> j \<and> j < e \<and> backendName (ds ! j) \<noteq> backendName (ds ! 0)" by simp
        then show "\<exists>j. i \<le> j \<and> j < e \<and> backendName (ds ! j) \<noteq> backendName (ds ! 0)" ..
      next
        assume "\<exists>j. i \<le> j \<and> j < e \<and> backendName (ds ! j) \<noteq> backendName (ds ! 0)"
        then obtain j where j: "i \<le> j" "j < e" "backendName (ds ! j) \<noteq> backendName (ds ! 0)"
          by blast
        have "j \<noteq> i"
        proof
          assume "j = i"
          with j(3) same show False by simp
        qed
        with j have "i + 1 \<le> j \<and> j < e \<and> backendName (ds ! j) \<noteq> backendName (ds ! 0)"
          by simp
        then show "\<exists>j. i + 1 \<le> j \<and> j < e \<and> backendName (ds ! j) \<noteq> backendName (ds ! 0)" ..
      qed
      finally show ?thesis .
    qed
  qed
qed

lemma init_multiBackendNames:
  "multiBackendNames' (init P) \<longleftrightarrow> \<not> shareOneBackend (deviceInfo' P)"
proof -
  let ?ds = "deviceInfo' P"
  have "init_loop ?ds 1 (length ?ds) \<longleftrightarrow> \<not> shareOneBackend ?ds"
  proof
    assume "init_loop ?ds 1 (length ?ds)"
    then obtain j where j: "j < length ?ds" "backendName (?ds ! j) \<noteq> backendName (?ds ! 0)"
      using init_loop_iff [of ?ds 1 "length ?ds"] by blast
    then have "0 < length ?ds" by auto
    with j have "?ds ! j \<in> set ?ds" "?ds ! 0 \<in> set ?ds" by simp_all
    with j(2) show "\<not> shareOneBackend ?ds" unfolding shareOneBackend_def by blast
  next
    assume "\<not> shareOneBackend ?ds"
    then obtain d e where de: "d \<in> set ?ds" "e \<in> set ?ds" "backendName d \<noteq> backendName e"
      unfolding shareOneBackend_def by blast
    then obtain a b where ab: "a < length ?ds" "?ds ! a = d" "b < length ?ds" "?ds ! b = e"
      by (metis in_set_conv_nth)
    have "backendName (?ds ! a) \<noteq> backendName (?ds ! 0)
          \<or> backendName (?ds ! b) \<noteq> backendName (?ds ! 0)"
      using de(3) ab by auto
    then obtain j where j: "j < length ?ds" "backendName (?ds ! j) \<noteq> backendName (?ds ! 0)"
      using ab by blast
    have "j \<noteq> 0"
    proof
      assume "j = 0"
      with j(2) show False by simp
    qed
    with j have "1 \<le> j \<and> j < length ?ds \<and> backendName (?ds ! j) \<noteq> backendName (?ds ! 0)"
      by simp
    then show "init_loop ?ds 1 (length ?ds)"
      using init_loop_iff [of ?ds 1 "length ?ds"] by blast
  qed
  then show ?thesis by (simp add: init_def)
qed

lemma init_fields:
  "partitionConfig' (init P) = partitionConfig' P"
  "deviceInfo' (init P) = deviceInfo' P"
  "module' (init P) = module' P"
  by (simp_all add: init_def)

text \<open>
  C3, as the claim states it, fails in its last sentence: with devices of two backend
  names and a module of two functions, \<open>loadBalancedPartition\<close> does not delegate; it
  returns its own error about the number of functions, which is not the result of
  \<open>heterogeneousPartition\<close>.
\<close>

theorem loadBalancedPartition_delegation_counterexample:
  "multiBackendNames' mixedTwoFunctionPartitioner
   \<and> loadBalancedPartition sampleExternals sampleOptions mixedTwoFunctionPartitioner
        (make_CompilationContext None None) 0
       = Failure (onlyOneFunction ''Now in load-balanced'' 2)
   \<and> heterogeneousPartition sampleExternals sampleOptions mixedTwoFunctionPartitioner
        (make_CompilationContext None None)
       = Failure (onlyOneFunction ''Now in heterogeneous'' 2)
   \<and> onlyOneFunction ''Now in load-balanced'' 2 \<noteq> onlyOneFunction ''Now in heterogeneous'' 2"
proof -
  let ?P = "mixedTwoFunctionPartitioner"
  have multi: "multiBackendNames' ?P"
    by (simp add: mixedTwoFunctionPartitioner_def Partitioner_backends_def init_multiBackendNames
          emptyPartitioner_def shareOneBackend_def mixedDevices_def deviceA_def deviceB_def)
  have funs: "length (getFunctions (module' ?P)) = 2"
    by (simp add: mixedTwoFunctionPartitioner_def Partitioner_backends_def init_def
          emptyPartitioner_def twoFunctionModule_def)
  have lb: "loadBalancedPartition sampleExternals sampleOptions ?P
              (make_CompilationContext None None) 0
            = Failure (onlyOneFunction ''Now in load-balanced'' 2)"
    by (simp add: loadBalancedPartition_def funs)
  have gen: "genBackendMap sampleExternals ?P (backendMap' ?P) (backendHolder ?P) []
      = Success ([''A'' \<mapsto> \<lparr>num = 1, memSize = 1000, infoPeakDramBw = 0, infoPeakSramBw = 0,
                     infoSramCapacity = 0, infoPeakCompute = 0, nonSupportedNodesKinds = {},
                     supportedNodesKinds = {}, backend = Some (sampleBackend ''A'')\<rparr>,
                  ''B'' \<mapsto> \<lparr>num = 1, memSize = 1000, infoPeakDramBw = 0, infoPeakSramBw = 0,
                     infoSramCapacity = 0, infoPeakCompute = 0, nonSupportedNodesKinds = {},
                     supportedNodesKinds = {}, backend = Some (sampleBackend ''B'')\<rparr>],
                 [sampleBackend ''A'', sampleBackend ''B''],
                 [sampleBackend ''A'', sampleBackend ''B''])"
    by (simp add: mixedTwoFunctionPartitioner_def Partitioner_backends_def init_def
          emptyPartitioner_def genBackendMap_def mixedDevices_def deviceA_def deviceB_def
          sampleExternals_def Let_def)
  have rep: "fst (selectRepFunc (module' ?P) (memSize' ?P)) = Some (sampleFunction ''main'')"
    by (simp add: mixedTwoFunctionPartitioner_def Partitioner_backends_def init_def
          emptyPartitioner_def twoFunctionModule_def selectRepFunc_def Let_def
          sampleFunction_def sampleNode_def)
  have het: "heterogeneousPartition sampleExternals sampleOptions ?P
               (make_CompilationContext None None)
             = Failure (onlyOneFunction ''Now in heterogeneous'' 2)"
    by (simp add: heterogeneousPartition_def gen rep funs Let_def)
  have "onlyOneFunction ''Now in load-balanced'' 2 \<noteq> onlyOneFunction ''Now in heterogeneous'' 2"
    by (simp add: onlyOneFunction_def MAKE_ERR_def)
  with multi lb het show ?thesis by simp
qed

text \<open>
  C3 (amended): \<open>Partitioner::partition\<close> selects exactly one mode by first match in this
  order: (1) if \<open>partitionConfig_.numOfPartitions > 0\<close> it runs \<open>partitionFromConfig\<close>;
  (2) else if \<open>cctx.precisionConfig.quantMode == Profile\<close> it runs
  \<open>quantizationProfilingPartition\<close>; (3) else if all \<open>DeviceInfo\<close>s share one backend name and
  the load-balance flag is set it runs \<open>loadBalancedPartition\<close>; (4) else it runs
  \<open>heterogeneousPartition\<close>. Moreover, a \<open>loadBalancedPartition\<close> invoked on a module of
  exactly one function while the devices have several backend names delegates to
  \<open>heterogeneousPartition\<close>. The partitioner is one that \<open>init\<close> has set up, as both
  constructors do.
\<close>

theorem partition_mode_selection:
  "partition ext opts (init P) cctx =
     (if 0 < numOfPartitions (partitionConfig' P) then
        partitionFromConfig ext opts (init P) (partitionConfig' P)
      else if quantMode (precisionConfig cctx) = Profile then
        quantizationProfilingPartition ext opts (init P) cctx
      else if shareOneBackend (deviceInfo' P) \<and> GlowEnableLoadBalancedPartitioning opts then
        loadBalancedPartition ext opts (init P) cctx 0
      else heterogeneousPartition ext opts (init P) cctx)
   \<and> (\<not> shareOneBackend (deviceInfo' P) \<and> length (getFunctions (module' P)) = 1 \<longrightarrow>
        loadBalancedPartition ext opts (init P) cctx n
          = heterogeneousPartition ext opts (init P) cctx)"
  by (simp add: partition_def loadBalancedPartition_def enabled_def init_multiBackendNames
        init_fields)

theorem partition_mode_selection_witness:
  "partition sampleExternals sampleOptions mixedPartitioner (make_CompilationContext None None)
     = heterogeneousPartition sampleExternals sampleOptions mixedPartitioner
         (make_CompilationContext None None)
   \<and> loadBalancedPartition sampleExternals sampleOptions mixedPartitioner
        (make_CompilationContext None None) 0
     = heterogeneousPartition sampleExternals sampleOptions mixedPartitioner
         (make_CompilationContext None None)"
proof -
  let ?P0 = "(emptyPartitioner sampleModule mixedDevices)
               \<lparr>backends' := [], saturateHost' := False, optimized' := True\<rparr>"
  have P: "mixedPartitioner = init ?P0"
    by (simp add: mixedPartitioner_def Partitioner_backends_def)
  have multi: "\<not> shareOneBackend (deviceInfo' ?P0)"
    by (simp add: emptyPartitioner_def shareOneBackend_def mixedDevices_def deviceA_def
          deviceB_def)
  have one: "length (getFunctions (module' ?P0)) = 1"
    by (simp add: emptyPartitioner_def sampleModule_def)
  have cfg: "\<not> 0 < numOfPartitions (partitionConfig' ?P0)"
    by (simp add: emptyPartitioner_def make_PartitionConfig_def)
  have mode: "quantMode (precisionConfig (make_CompilationContext None None)) \<noteq> Profile"
    by (simp add: make_CompilationContext_def make_PrecisionConfiguration_def)
  show ?thesis
    unfolding P
    using partition_mode_selection
            [of sampleExternals sampleOptions ?P0 "make_CompilationContext None None" 0]
          multi one cfg mode
    by simp
qed

section \<open>Host saturation\<close>

lemma unat_ucast_mod:
  "unat (ucast (w :: 'a::len word) :: 'b::len word) = unat w mod 2 ^ LENGTH('b)"
  by (simp add: unsigned_ucast_eq take_bit_eq_mod)

lemma duplications_unat:
  assumes "D < 2 ^ 32"
  shows "unat (ucast ((of_nat D :: 64 word) div ucast (k :: 32 word)) :: 32 word) = D div unat k"
proof -
  have D64: "unat (of_nat D :: 64 word) = D"
    using assms by (simp add: unat_of_nat)
  have k64: "unat (ucast k :: 64 word) = unat k"
    using unsigned_less [of k, where 'a = nat] by (simp add: unat_ucast_mod)
  have q: "unat ((of_nat D :: 64 word) div ucast k) = D div unat k"
    by (simp only: unat_div D64 k64)
  have "D div unat k \<le> D" by simp
  then have "D div unat k < 2 ^ 32" using assms by linarith
  then show ?thesis
    by (simp only: unat_ucast_mod q) simp
qed

lemma newID_unat:
  assumes "unat L + i * unat k < 2 ^ 32"
  shows "unat (ucast (ucast ((L :: 64 word) + ucast (of_nat i * (k :: 32 word) :: 32 word)) :: 32 word) :: 64 word)
           = unat L + i * unat k"
proof -
  have ik: "i * unat k < 2 ^ 32" using assms by linarith
  have prod: "unat (of_nat i * k :: 32 word) = i * unat k"
  proof -
    have "unat (of_nat i * k :: 32 word) = (unat (of_nat i :: 32 word) * unat k) mod 2 ^ 32"
      by (simp add: unat_word_ariths)
    also have "\<dots> = ((i mod 2 ^ 32) * unat k) mod 2 ^ 32"
      by (simp add: unat_of_nat)
    also have "\<dots> = (i * unat k) mod 2 ^ 32"
      by (simp add: mod_mult_left_eq)
    also have "\<dots> = i * unat k" using ik by simp
    finally show ?thesis .
  qed
  have prod64: "unat (ucast (of_nat i * k :: 32 word) :: 64 word) = i * unat k"
    using ik by (simp add: unat_ucast_mod prod)
  have sum: "unat (L + ucast (of_nat i * k :: 32 word)) = unat L + i * unat k"
  proof -
    have "unat (L + ucast (of_nat i * k :: 32 word))
            = (unat L + unat (ucast (of_nat i * k :: 32 word) :: 64 word)) mod 2 ^ 64"
      by (simp add: unat_word_ariths)
    also have "\<dots> = (unat L + i * unat k) mod 2 ^ 64" by (simp only: prod64)
    also have "\<dots> = unat L + i * unat k" using assms by simp
    finally show ?thesis .
  qed
  define X where "X = L + ucast (of_nat i * k :: 32 word)"
  define Y where "Y = (ucast X :: 32 word)"
  have X: "unat X = unat L + i * unat k" using sum by (simp add: X_def)
  have "unat Y = unat X mod 2 ^ 32"
    unfolding Y_def using unat_ucast_mod [of X, where 'b = 32] by simp
  then have Y: "unat Y = unat L + i * unat k" using X assms by simp
  have "unat (ucast Y :: 64 word) = unat Y mod 2 ^ 64"
    using unat_ucast_mod [of Y, where 'b = 64] by simp
  then have "unat (ucast Y :: 64 word) = unat L + i * unat k" using Y assms by simp
  then show ?thesis by (simp add: Y_def X_def)
qed

lemma newDevices_unat:
  assumes "\<forall>L \<in> set ls. unat L + (unat dup - 1) * unat k < 2 ^ 32"
  shows "map unat (map ucast (newDevices dup k ls) :: 64 word list)
           = concat (map (\<lambda>L. map (\<lambda>i. L + i * unat k) [1 ..< unat dup]) (map unat ls))"
proof -
  have elem: "\<forall>L \<in> set ls. \<forall>i \<in> {Suc 0 ..< unat dup}.
      unat (ucast (ucast (L + ucast (of_nat i * k :: 32 word)) :: 32 word) :: 64 word)
        = unat L + i * unat k"
  proof (intro ballI)
    fix L i assume L: "L \<in> set ls" and i: "i \<in> {Suc 0 ..< unat dup}"
    from i have "i \<le> unat dup - 1" by auto
    then have "i * unat k \<le> (unat dup - 1) * unat k" by (rule mult_le_mono1)
    moreover have "unat L + (unat dup - 1) * unat k < 2 ^ 32" using assms L by blast
    ultimately have "unat L + i * unat k < 2 ^ 32" by linarith
    then show "unat (ucast (ucast (L + ucast (of_nat i * k :: 32 word)) :: 32 word) :: 64 word)
        = unat L + i * unat k"
      by (rule newID_unat)
  qed
  have "map (\<lambda>L. map (\<lambda>i. unat
            (ucast (ucast (L + ucast (of_nat i * k :: 32 word)) :: 32 word) :: 64 word))
          [1 ..< unat dup]) ls
      = map (\<lambda>L. map (\<lambda>i. unat L + i * unat k) [1 ..< unat dup]) ls"
    by (intro map_cong refl) (use elem in auto)
  then show ?thesis
    by (simp only: newDevices_def map_concat map_map comp_def)
qed

lemma newDevices_length:
  "length (newDevices dup k ls) = length ls * (unat dup - 1)"
  by (induction ls) (simp_all add: newDevices_def)

lemma saturateNode_saturated:
  assumes "D < 2 ^ 32" and dup: "unat dup = D div unat k" and two: "2 \<le> D div unat k"
  shows "saturated D (unat k) node (saturateNode dup k node)"
proof -
  have len: "length (logicalDevices (saturateNode dup k node))
               = length (logicalDevices node) * (D div unat k)"
  proof -
    have "length (logicalDevices (saturateNode dup k node))
            = length (logicalDevices node) + length (logicalDevices node) * (D div unat k - 1)"
      by (simp add: saturateNode_def newDevices_length dup)
    also have "\<dots> = length (logicalDevices node) * (1 + (D div unat k - 1))"
      by (simp only: distrib_left mult_1_right)
    also have "1 + (D div unat k - 1) = D div unat k" using two by simp
    finally show ?thesis .
  qed
  have ids: "map unat (logicalDevices (saturateNode dup k node))
               = saturatedIDs D (unat k) (map unat (logicalDevices node))"
    if "fitsUnsigned D (unat k) node"
  proof -
    from that have "\<forall>L \<in> set (logicalDevices node). unat L + (unat dup - 1) * unat k < 2 ^ 32"
      by (simp add: fitsUnsigned_def list_all_iff dup)
    from newDevices_unat [OF this] show ?thesis
      by (simp add: saturateNode_def saturatedIDs_def dup)
  qed
  show ?thesis
    unfolding saturated_def using two len ids by (simp add: saturateNode_def)
qed

lemma list_all2_map_same:
  assumes "\<And>x. x \<in> set xs \<Longrightarrow> R x (f x)"
  shows "list_all2 R xs (map f xs)"
  using assms by (simp add: list_all2_map2 list_all2_same)

lemma saturated_refl: "D div k < 2 \<Longrightarrow> saturated D k node node"
  by (simp add: saturated_def)

text \<open>
  C4, as the claim states it, fails for the root of a DAG, which is a \<open>DAGNode\<close> too.
  Take two devices and \<open>k = 1\<close>, so that \<open>D / k = 2\<close>: the root of the DAG of an unsplit
  network holds the one logical device 0 before \<open>saturateHost\<close> and after it, while its
  child ends with the two devices 0 and 1.
\<close>

theorem saturateHost_root_counterexample:
  "length (deviceInfo' saturatingPartitioner) div unat (1 :: 32 word) = 2
   \<and> logicalDevices (root wholeDAG) = [0]
   \<and> saturateHost saturatingPartitioner 1 [wholeDAG] = Success [saturatedWholeDAG]
   \<and> logicalDevices (root saturatedWholeDAG) = [0]
   \<and> map logicalDevices (nodes saturatedWholeDAG) = [ [0, 1] ]"
proof -
  have upt: "[Suc 0 ..< 2] = [Suc 0]" by (simp add: numeral_2_eq_2)
  show ?thesis
    by (simp add: saturatingPartitioner_def Partitioner_backends_def init_def
          emptyPartitioner_def twoDevices_def wholeDAG_def saturatedWholeDAG_def
          wholeFunctionDAG_def make_DAGNode_def saturateHost_def saturateNode_def
          newDevices_def Let_def upt)
qed

text \<open>
  C4 (amended): let \<open>D\<close> be the number of devices and \<open>k\<close>, not zero, the
  \<open>logicalDeviceCount\<close> argument, \<open>D\<close> below \<open>2 ^ 32\<close>. \<open>saturateHost(k, partitions)\<close> leaves the
  root of every DAG as it is and changes nothing but the logical devices of the nodes in
  \<open>DAG.nodes\<close>. If \<open>D / k \<ge> 2\<close>, it appends to each of these nodes, for each pre-existing
  logical ID \<open>L\<close> and each \<open>i\<close> in \<open>[1, D / k)\<close>, the new ID \<open>L + i * k\<close>, provided these IDs are
  below \<open>2 ^ 32\<close>; the number of logical devices of the node is multiplied by \<open>D / k\<close>, so
  a node that holds one logical device ends with exactly \<open>D / k\<close>. If \<open>D / k < 2\<close>, every
  node is left unchanged.
\<close>

theorem saturateHost_nodes:
  assumes "k \<noteq> 0" and "length (deviceInfo' P) < 2 ^ 32"
  shows "\<exists>ps. saturateHost P k partitions = Success ps
     \<and> map root ps = map root partitions
     \<and> list_all2 (\<lambda>net net1.
           list_all2 (saturated (length (deviceInfo' P)) (unat k)) (nodes net) (nodes net1))
         partitions ps"
proof -
  let ?D = "length (deviceInfo' P)"
  let ?dup = "ucast ((of_nat ?D :: 64 word) div ucast k) :: 32 word"
  have dup: "unat ?dup = ?D div unat k" by (rule duplications_unat [OF assms(2)])
  have lt: "?dup < 2 \<longleftrightarrow> ?D div unat k < 2"
    by (simp only: word_less_nat_alt dup) simp
  show ?thesis
  proof (cases "?D div unat k < 2")
    case True
    then have res: "saturateHost P k partitions = Success partitions"
      using assms(1) lt by (simp add: saturateHost_def Let_def)
    have "list_all2 (\<lambda>net net1.
           list_all2 (saturated ?D (unat k)) (nodes net) (nodes net1)) partitions partitions"
      using True by (simp add: list_all2_same saturated_refl)
    with res show ?thesis by simp
  next
    case False
    then have two: "2 \<le> ?D div unat k" by simp
    let ?ps = "map (\<lambda>network. network\<lparr>nodes := map (saturateNode ?dup k) (nodes network)\<rparr>)
                 partitions"
    have res: "saturateHost P k partitions = Success ?ps"
      using assms(1) lt False by (simp add: saturateHost_def Let_def)
    have roots: "map root ?ps = map root partitions" by simp
    have "list_all2 (\<lambda>net net1.
           list_all2 (saturated ?D (unat k)) (nodes net) (nodes net1)) partitions ?ps"
      by (rule list_all2_map_same)
         (simp add: list_all2_map_same saturateNode_saturated [OF assms(2) dup two])
    with res roots show ?thesis by blast
  qed
qed


theorem saturateHost_nodes_witness:
  "\<exists>ps. saturateHost saturatingPartitioner 1 [wholeDAG] = Success ps
     \<and> map root ps = [root wholeDAG]
     \<and> list_all2 (\<lambda>net net1. list_all2 (saturated 2 1) (nodes net) (nodes net1)) [wholeDAG] ps"
proof -
  have k: "(1 :: 32 word) \<noteq> 0" by simp
  have len: "length (deviceInfo' saturatingPartitioner) = 2"
    by (simp add: saturatingPartitioner_def Partitioner_backends_def init_def
          emptyPartitioner_def twoDevices_def)
  then have D: "length (deviceInfo' saturatingPartitioner) < 2 ^ 32" by simp
  show ?thesis
    using saturateHost_nodes [OF k D, of "[wholeDAG]"] by (simp add: len)
qed

section \<open>Assignment of nodes to backends\<close>

lemma findBackend_firstAccepting: "findBackend bm backends N = firstAccepting bm backends N"
  by (induction backends) (auto simp: firstAccepting_def accepts_def)

lemma assignBackends_result:
  assumes "\<forall>N b. m0 N = Some b \<longrightarrow> findBackend bm backends N = Some b"
  shows "assignBackends bm backends ns m0 =
     (if \<forall>N \<in> set ns. findBackend bm backends N \<noteq> None then
        Inr (\<lambda>N. if N \<in> set ns then findBackend bm backends N else m0 N)
      else Inl (MAKE_ERR ''Node is not supported by any of the provided backends''))"
  using assms
proof (induction ns arbitrary: m0)
  case Nil
  show ?case by simp
next
  case (Cons N Ns)
  show ?case
  proof (cases "findBackend bm backends N")
    case None
    have "m0 N = None"
    proof (cases "m0 N")
      case (Some b)
      with Cons.prems None show ?thesis by fastforce
    qed simp
    with None show ?thesis by simp
  next
    case (Some b)
    let ?m1 = "m0(N \<mapsto> b)"
    have inv: "\<forall>N' b'. ?m1 N' = Some b' \<longrightarrow> findBackend bm backends N' = Some b'"
      using Cons.prems Some by simp
    have eq: "(\<lambda>N'. if N' \<in> set Ns then findBackend bm backends N' else ?m1 N')
            = (\<lambda>N'. if N' \<in> set (N # Ns) then findBackend bm backends N' else m0 N')"
      using Some by (auto simp: fun_eq_iff)
    have step: "assignBackends bm backends (N # Ns) m0 = assignBackends bm backends Ns ?m1"
      using Some by simp
    have IH: "assignBackends bm backends Ns ?m1 =
       (if \<forall>N' \<in> set Ns. findBackend bm backends N' \<noteq> None then
          Inr (\<lambda>N'. if N' \<in> set Ns then findBackend bm backends N' else ?m1 N')
        else Inl (MAKE_ERR ''Node is not supported by any of the provided backends''))"
      by (rule Cons.IH [OF inv])
    have all: "(\<forall>N' \<in> set (N # Ns). findBackend bm backends N' \<noteq> None)
                 \<longleftrightarrow> (\<forall>N' \<in> set Ns. findBackend bm backends N' \<noteq> None)"
      using Some by simp
    show ?thesis by (simp only: step IH all eq)
  qed
qed

text \<open>
  C5: in \<open>backendBasedPartition\<close>, every operator node of the input function is assigned
  the first backend in the declared backend order such that the node's kind is not in
  that backend's non-supported kinds, the backend's supported kinds are empty or contain
  the node's kind, and the backend either lowers the node or reports it supported;
  \<open>backendBasedPartition\<close> then goes on to cut the graph with this assignment. If no
  backend satisfies all three conditions for some node, \<open>backendBasedPartition\<close> returns
  the error that the node is not supported by any of the provided backends, rather than
  a partition.
\<close>

theorem backendBasedPartition_first_backend:
  "((\<forall>N \<in> set (getNodes F). \<exists>b. firstAccepting (backendMap' P) backends N = Some b) \<longrightarrow>
      (\<exists>nodeToBackendName.
          assignBackends (backendMap' P) backends (getNodes F) Map.empty
            = Inr nodeToBackendName
          \<and> dom nodeToBackendName = set (getNodes F)
          \<and> (\<forall>N \<in> set (getNodes F).
                nodeToBackendName N = firstAccepting (backendMap' P) backends N)
          \<and> backendBasedPartition ext P funcToBackend F backends cctx
              = backendBasedPartitionRest ext P nodeToBackendName funcToBackend F cctx))
   \<and> ((\<exists>N \<in> set (getNodes F). \<forall>b \<in> set backends. \<not> accepts (backendMap' P) N b) \<longrightarrow>
        backendBasedPartition ext P funcToBackend F backends cctx
          = Failure (MAKE_ERR ''Node is not supported by any of the provided backends''))"
proof -
  let ?bm = "backendMap' P" and ?ns = "getNodes F"
  let ?m = "\<lambda>N. if N \<in> set ?ns then findBackend ?bm backends N else None"
  have res: "assignBackends ?bm backends ?ns Map.empty =
     (if \<forall>N \<in> set ?ns. findBackend ?bm backends N \<noteq> None then Inr ?m
      else Inl (MAKE_ERR ''Node is not supported by any of the provided backends''))"
    using assignBackends_result [of Map.empty ?bm backends ?ns] by simp
  have ok: "\<exists>nodeToBackendName.
          assignBackends ?bm backends ?ns Map.empty = Inr nodeToBackendName
          \<and> dom nodeToBackendName = set ?ns
          \<and> (\<forall>N \<in> set ?ns. nodeToBackendName N = firstAccepting ?bm backends N)
          \<and> backendBasedPartition ext P funcToBackend F backends cctx
              = backendBasedPartitionRest ext P nodeToBackendName funcToBackend F cctx"
    if all: "\<forall>N \<in> set ?ns. \<exists>b. firstAccepting ?bm backends N = Some b"
  proof -
    from all have found: "\<forall>N \<in> set ?ns. findBackend ?bm backends N \<noteq> None"
      by (auto simp: findBackend_firstAccepting)
    with res have a: "assignBackends ?bm backends ?ns Map.empty = Inr ?m" by simp
    have d: "dom ?m = set ?ns" using found by (auto simp: dom_def)
    have f: "\<forall>N \<in> set ?ns. ?m N = firstAccepting ?bm backends N"
      by (simp add: findBackend_firstAccepting)
    have "backendBasedPartition ext P funcToBackend F backends cctx
            = backendBasedPartitionRest ext P ?m funcToBackend F cctx"
      by (simp add: backendBasedPartition_def a)
    with a d f show ?thesis by blast
  qed
  have bad: "backendBasedPartition ext P funcToBackend F backends cctx
          = Failure (MAKE_ERR ''Node is not supported by any of the provided backends'')"
    if none: "\<exists>N \<in> set ?ns. \<forall>b \<in> set backends. \<not> accepts ?bm N b"
  proof -
    from none obtain N where N: "N \<in> set ?ns" "\<forall>b \<in> set backends. \<not> accepts ?bm N b"
      by blast
    then have "find (accepts ?bm N) backends = None" by (simp add: find_None_iff)
    then have "findBackend ?bm backends N = None"
      by (simp add: findBackend_firstAccepting firstAccepting_def)
    with N(1) have "\<not> (\<forall>N \<in> set ?ns. findBackend ?bm backends N \<noteq> None)" by blast
    then have "assignBackends ?bm backends ?ns Map.empty
        = Inl (MAKE_ERR ''Node is not supported by any of the provided backends'')"
      by (simp only: res if_False)
    then show ?thesis by (simp add: backendBasedPartition_def)
  qed
  from ok bad show ?thesis by blast
qed

theorem backendBasedPartition_first_backend_witness:
  "(\<exists>nodeToBackendName.
       assignBackends sampleBackendMap [sampleBackend ''A'', sampleBackend ''B'']
           (getNodes (sampleFunction ''main'')) Map.empty = Inr nodeToBackendName
       \<and> nodeToBackendName (sampleNode ''conv'' 2) = Some ''B''
       \<and> nodeToBackendName (sampleNode ''relu'' 3) = Some ''A'')
   \<and> backendBasedPartition sampleExternals (samplePartitioner\<lparr>backendMap' := sampleBackendMap\<rparr>)
        Map.empty unsupportedFunction [sampleBackend ''A'', sampleBackend ''B'']
        (make_CompilationContext None None)
      = Failure (MAKE_ERR ''Node is not supported by any of the provided backends'')"
proof -
  let ?P = "samplePartitioner\<lparr>backendMap' := sampleBackendMap\<rparr>"
  let ?bs = "[sampleBackend ''A'', sampleBackend ''B'']"
  let ?cctx = "make_CompilationContext None None"
  have bm: "backendMap' ?P = sampleBackendMap" by simp
  have conv: "firstAccepting sampleBackendMap ?bs (sampleNode ''conv'' 2) = Some ''B''"
    by (simp add: firstAccepting_def accepts_def sampleBackendMap_def sampleBackend_def
          sampleNode_def at_def make_BackendInfo_def)
  have relu: "firstAccepting sampleBackendMap ?bs (sampleNode ''relu'' 3) = Some ''A''"
    by (simp add: firstAccepting_def accepts_def sampleBackendMap_def sampleBackend_def
          sampleNode_def at_def make_BackendInfo_def)
  have save: "firstAccepting sampleBackendMap ?bs
      \<lparr>getKind = SaveNodeKind, getName = ''save'', inputs = [OtherInput ''relu'']\<rparr> = Some ''A''"
    by (simp add: firstAccepting_def accepts_def sampleBackendMap_def sampleBackend_def
          at_def make_BackendInfo_def)
  have all: "\<forall>N \<in> set (getNodes (sampleFunction ''main'')).
               \<exists>b. firstAccepting (backendMap' ?P) ?bs N = Some b"
    using conv relu save by (simp add: sampleFunction_def)
  have mem: "sampleNode ''conv'' 2 \<in> set (getNodes (sampleFunction ''main''))"
      "sampleNode ''relu'' 3 \<in> set (getNodes (sampleFunction ''main''))"
    by (simp_all add: sampleFunction_def)
  have softmax: "\<forall>b \<in> set ?bs. \<not> accepts (backendMap' ?P) (sampleNode ''softmax'' 7) b"
    by (simp add: accepts_def sampleBackend_def sampleNode_def)
  have none: "\<exists>N \<in> set (getNodes unsupportedFunction).
                \<forall>b \<in> set ?bs. \<not> accepts (backendMap' ?P) N b"
    using softmax by (simp add: unsupportedFunction_def)
  from backendBasedPartition_first_backend
         [of "sampleFunction ''main''" ?P ?bs sampleExternals Map.empty ?cctx] all
  obtain m where m: "assignBackends (backendMap' ?P) ?bs (getNodes (sampleFunction ''main''))
                       Map.empty = Inr m"
      "\<forall>N \<in> set (getNodes (sampleFunction ''main'')). m N = firstAccepting (backendMap' ?P) ?bs N"
    by blast
  have first: "\<exists>nodeToBackendName.
       assignBackends sampleBackendMap ?bs (getNodes (sampleFunction ''main'')) Map.empty
         = Inr nodeToBackendName
       \<and> nodeToBackendName (sampleNode ''conv'' 2) = Some ''B''
       \<and> nodeToBackendName (sampleNode ''relu'' 3) = Some ''A''"
    using m mem conv relu by (intro exI [of _ m]) (simp add: bm)
  have second: "backendBasedPartition sampleExternals ?P Map.empty unsupportedFunction ?bs ?cctx
      = Failure (MAKE_ERR ''Node is not supported by any of the provided backends'')"
    using backendBasedPartition_first_backend
            [of unsupportedFunction ?P ?bs sampleExternals Map.empty ?cctx] none
    by blast
  from first second show ?thesis by blast
qed

section \<open>The memory-driven walk\<close>























lemma upt_snoc: "[1 ..< Suc (c + 1)] = [1 ..< c + 1] @ [c + 1]"
  by simp







section \<open>Verification of the compilation context\<close>

lemma verify_success_iff:
  "verify c = Inr () \<longleftrightarrow> whitelistCondition c \<and> quantModeConditions c"
  by (cases "quantMode (precisionConfig c)")
     (auto simp: verify_def whitelistCondition_def quantModeConditions_def Let_def)

lemma verify_quantMode_violation:
  assumes "whitelistCondition c" and "\<not> quantModeConditions c"
  shows "\<exists>e. verify c = Inl e \<and> errorCode e = Some COMPILE_CONTEXT_MALFORMED"
  using assms
  by (cases "quantMode (precisionConfig c)")
     (auto simp: verify_def whitelistCondition_def quantModeConditions_def Let_def
                 MAKE_ERR_code_def)

text \<open>
  C7, as the claim states it, fails in its last sentence: the context \<open>whitelistOnlyContext\<close>
  violates the whitelist condition, and the error \<open>verify\<close> returns carries no error code,
  so it is not a \<open>COMPILE_CONTEXT_MALFORMED\<close> error.
\<close>

theorem verify_whitelist_error_counterexample:
  "\<not> whitelistCondition whitelistOnlyContext
   \<and> verify whitelistOnlyContext = Inl (MAKE_ERR
        ''Can only use the precisionModeKindSet as a whitelist in convertToFP16 mode.'')
   \<and> errorCode (MAKE_ERR
        ''Can only use the precisionModeKindSet as a whitelist in convertToFP16 mode.'')
       \<noteq> Some COMPILE_CONTEXT_MALFORMED"
  by (simp add: whitelistOnlyContext_def make_CompilationContext_def
        make_PrecisionConfiguration_def whitelistCondition_def verify_def MAKE_ERR_def)

text \<open>
  C7 (amended): \<open>CompilationContext::verify()\<close> returns success if and only if all of the
  following hold: \<open>useSetAsWhitelist\<close> implies \<open>convertToFP16\<close>; if
  \<open>quantMode == Profile\<close> then \<open>bindings\<close> is set, \<open>loweredInfoMap\<close> is set and
  \<open>convertToFP16\<close> is false; if \<open>quantMode == Quantize\<close> then \<open>loweredInfoMap\<close> is set;
  if \<open>quantMode == None\<close> no further condition is imposed. A violation of a condition on the quantization mode, in a context
  that meets the whitelist condition, yields a \<open>COMPILE_CONTEXT_MALFORMED\<close> error.
\<close>

theorem verify_characterisation:
  "(verify c = Inr () \<longleftrightarrow>
      (useSetAsWhitelist (precisionConfig c) \<longrightarrow> convertToFP16 (precisionConfig c))
      \<and> (quantMode (precisionConfig c) = Profile \<longrightarrow>
           bindings c \<noteq> None \<and> loweredInfoMap c \<noteq> None
           \<and> \<not> convertToFP16 (precisionConfig c))
      \<and> (quantMode (precisionConfig c) = Quantize \<longrightarrow> loweredInfoMap c \<noteq> None))
   \<and> (whitelistCondition c \<and> \<not> quantModeConditions c \<longrightarrow>
        (\<exists>e. verify c = Inl e \<and> errorCode e = Some COMPILE_CONTEXT_MALFORMED))"
proof -
  have "quantModeConditions c \<longleftrightarrow>
      (quantMode (precisionConfig c) = Profile \<longrightarrow>
           bindings c \<noteq> None \<and> loweredInfoMap c \<noteq> None
           \<and> \<not> convertToFP16 (precisionConfig c))
      \<and> (quantMode (precisionConfig c) = Quantize \<longrightarrow> loweredInfoMap c \<noteq> None)"
    by (cases "quantMode (precisionConfig c)") (simp_all add: quantModeConditions_def)
  then show ?thesis
    using verify_success_iff [of c] verify_quantMode_violation [of c]
    by (simp add: whitelistCondition_def)
qed

theorem verify_characterisation_witness:
  "verify profilingContext = Inr ()
   \<and> (\<exists>e. verify profilingNoBindings = Inl e \<and> errorCode e = Some COMPILE_CONTEXT_MALFORMED)"
proof -
  have ok: "(useSetAsWhitelist (precisionConfig profilingContext)
               \<longrightarrow> convertToFP16 (precisionConfig profilingContext))
      \<and> (quantMode (precisionConfig profilingContext) = Profile \<longrightarrow>
           bindings profilingContext \<noteq> None \<and> loweredInfoMap profilingContext \<noteq> None
           \<and> \<not> convertToFP16 (precisionConfig profilingContext))
      \<and> (quantMode (precisionConfig profilingContext) = Quantize
           \<longrightarrow> loweredInfoMap profilingContext \<noteq> None)"
    by (simp add: profilingContext_def make_CompilationContext_def
          make_PrecisionConfiguration_def)
  have bad: "whitelistCondition profilingNoBindings \<and> \<not> quantModeConditions profilingNoBindings"
    by (simp add: profilingNoBindings_def make_CompilationContext_def
          make_PrecisionConfiguration_def whitelistCondition_def quantModeConditions_def)
  show ?thesis
    using verify_characterisation [of profilingContext] ok
          verify_characterisation [of profilingNoBindings] bad
    by blast
qed

section \<open>A module that needs no partition\<close>

lemma genBackendMap_loop_same:
  assumes "bm0 bn = Some i0" and "\<forall>d \<in> set ds. backendName d = bn"
    and "bs = [] \<or> (\<forall>j < length ds. i + j < length bs \<and> getBackendName (bs ! (i + j)) = bn)"
  shows "genBackendMap_loop ext bs ds i (bm0, holder, backs, n)
           = Success (bm0(bn \<mapsto> i0\<lparr>num := num i0 + length ds\<rparr>), holder, backs, n)"
  using assms
proof (induction ds arbitrary: i bm0 i0)
  case Nil
  then have "bm0(bn \<mapsto> i0\<lparr>num := num i0 + length ([] :: DeviceInfo list)\<rparr>) = bm0"
    by (auto simp: fun_eq_iff)
  then show ?case by simp
next
  case (Cons d ds)
  have bn: "backendName d = bn" using Cons.prems(2) by simp
  have ok: "\<not> (bs \<noteq> [] \<and> (length bs \<le> i \<or> getBackendName (bs ! i) \<noteq> bn))"
    using Cons.prems(3) by fastforce
  let ?bm1 = "bm0(bn \<mapsto> i0\<lparr>num := num i0 + 1\<rparr>)"
  have step: "genBackendMap_loop ext bs (d # ds) i (bm0, holder, backs, n)
      = genBackendMap_loop ext bs ds (i + 1) (?bm1, holder, backs, n)"
    using ok Cons.prems(1) by (cases "bs = []") (simp_all add: bn Let_def at_def)
  have next': "bs = [] \<or> (\<forall>j < length ds. (i + 1) + j < length bs
                 \<and> getBackendName (bs ! ((i + 1) + j)) = bn)"
    using Cons.prems(3) by fastforce
  have IH: "genBackendMap_loop ext bs ds (i + 1) (?bm1, holder, backs, n)
      = Success (?bm1(bn \<mapsto> (i0\<lparr>num := num i0 + 1\<rparr>)\<lparr>num := num (i0\<lparr>num := num i0 + 1\<rparr>) + length ds\<rparr>),
                 holder, backs, n)"
    by (rule Cons.IH) (use Cons.prems(2) next' in simp_all)
  have m: "?bm1(bn \<mapsto> (i0\<lparr>num := num i0 + 1\<rparr>)\<lparr>num := num (i0\<lparr>num := num i0 + 1\<rparr>) + length ds\<rparr>)
             = bm0(bn \<mapsto> i0\<lparr>num := num i0 + length (d # ds)\<rparr>)"
    by simp
  show ?case by (simp only: step IH m)
qed

lemma genBackendMap_single:
  assumes fresh: "backendMap' P = Map.empty" "backendHolder P = []"
    and given: "backends' P = []
                \<or> map getBackendName (backends' P) = map backendName (deviceInfo' P)"
    and devs: "deviceInfo' P \<noteq> []" "\<forall>d \<in> set (deviceInfo' P). backendName d = bn"
  shows "\<exists>bm holder info.
           genBackendMap ext P (backendMap' P) (backendHolder P) []
             = Success (bm, holder, [givenBackend ext P bn])
           \<and> bm bn = Some info
           \<and> memSize info = availableMemory (hd (deviceInfo' P))
           \<and> backend info = Some (givenBackend ext P bn)"
proof -
  let ?bs = "backends' P"
  obtain d ds where ds: "deviceInfo' P = d # ds" using devs(1) by (cases "deviceInfo' P") auto
  have bn: "backendName d = bn" and rest: "\<forall>d \<in> set ds. backendName d = bn"
    using devs(2) ds by simp_all
  have len: "?bs \<noteq> [] \<Longrightarrow> length ?bs = Suc (length ds)"
    using given ds map_eq_imp_length_eq [of getBackendName ?bs backendName "deviceInfo' P"]
    by auto
  have names: "getBackendName (?bs ! j) = bn" if "?bs \<noteq> []" "j < Suc (length ds)" for j
  proof -
    from that given have eq: "map getBackendName ?bs = map backendName (d # ds)"
      by (simp add: ds)
    have "getBackendName (?bs ! j) = map getBackendName ?bs ! j"
      using that len by simp
    also have "\<dots> = map backendName (d # ds) ! j" by (simp only: eq)
    also have "\<dots> = backendName ((d # ds) ! j)" by (rule nth_map) (use that in simp)
    also have "\<dots> = bn"
    proof -
      have "(d # ds) ! j \<in> set (deviceInfo' P)"
        unfolding ds by (rule nth_mem) (use that in simp)
      with devs(2) show ?thesis by blast
    qed
    finally show ?thesis .
  qed
  define holder1 where "holder1 = (if ?bs \<noteq> [] then [] else [createBackend ext bn])"
  define b where "b = givenBackend ext P bn"
  define n1 where "n1 = (if ?bs \<noteq> [] then 0 else Suc 0)"
  define info1 where "info1 = \<lparr>num = 1, memSize = availableMemory d,
               infoPeakDramBw = peakDramBw d, infoPeakSramBw = peakSramBw d,
               infoSramCapacity = sramCapacity d, infoPeakCompute = peakCompute d,
               nonSupportedNodesKinds = generateNodeKindsSet ext (nonSupportedNodes d),
               supportedNodesKinds = generateNodeKindsSet ext (supportedNodes d),
               backend = Some b\<rparr>"
  have ok0: "\<not> (?bs \<noteq> [] \<and> (length ?bs \<le> 0 \<or> getBackendName (?bs ! 0) \<noteq> bn))"
    using names [of 0] by auto
  have step: "genBackendMap_loop ext ?bs (d # ds) 0 (Map.empty, [], [], 0)
      = genBackendMap_loop ext ?bs ds (Suc 0) ([bn \<mapsto> info1], holder1, [b], n1)"
    using ok0
    by (cases "?bs = []")
       (simp_all add: bn Let_def holder1_def b_def n1_def info1_def givenBackend_def)
  have dcheck: "?bs = [] \<or> (\<forall>j < length ds. (Suc 0) + j < length ?bs
                  \<and> getBackendName (?bs ! ((Suc 0) + j)) = bn)"
    using len names by (cases "?bs = []") auto
  have loop: "genBackendMap_loop ext ?bs ds (Suc 0) ([bn \<mapsto> info1], holder1, [b], n1)
      = Success ([bn \<mapsto> info1](bn \<mapsto> info1\<lparr>num := num info1 + length ds\<rparr>), holder1, [b], n1)"
    by (rule genBackendMap_loop_same) (use rest dcheck in simp_all)
  have sizes: "\<not> (?bs \<noteq> [] \<and> length ?bs \<noteq> length (deviceInfo' P))"
    using len ds by auto
  have "genBackendMap ext P (backendMap' P) (backendHolder P) []
      = Success ([bn \<mapsto> info1](bn \<mapsto> info1\<lparr>num := num info1 + length ds\<rparr>), holder1, [b])"
    using sizes
    by (simp add: genBackendMap_def fresh ds step loop del: genBackendMap_loop.simps)
  then show ?thesis
    by (intro exI [of _ "[bn \<mapsto> info1](bn \<mapsto> info1\<lparr>num := num info1 + length ds\<rparr>)"]
              exI [of _ holder1] exI [of _ "info1\<lparr>num := num info1 + length ds\<rparr>"])
       (simp add: b_def info1_def ds)
qed

lemma selectRepFunc_loop_Some:
  "\<exists>F. fst (selectRepFunc_loop Fs ms (Some F0, x)) = Some F"
  by (induction Fs arbitrary: F0 x) (simp_all add: Let_def)

lemma selectRepFunc_Some:
  assumes "getFunctions m \<noteq> []"
  shows "\<exists>F. fst (selectRepFunc m ms) = Some F"
proof -
  obtain F Fs where "getFunctions m = F # Fs" using assms by (cases "getFunctions m") auto
  then show ?thesis
    using selectRepFunc_loop_Some by (simp add: selectRepFunc_def Let_def)
qed

lemma createDAGWithoutPartition_loop_optimized:
  "createDAGWithoutPartition_loop ext True bn bm cctx fs
     = Success (fs, map (\<lambda>F. wholeFunctionDAG (funName F) bn) fs)"
  by (induction fs) simp_all

lemma createDAGWithoutPartition_loop_optimizing:
  assumes "backend (at bm bn) = Some b" and "optimizeAll ext b cctx fs = Some fs1"
  shows "createDAGWithoutPartition_loop ext False bn bm cctx fs
     = Success (fs1, map (\<lambda>F. wholeFunctionDAG (funName F) bn) fs1)"
  using assms(2)
proof (induction fs arbitrary: fs1)
  case Nil
  then show ?case by simp
next
  case (Cons F Fs)
  then obtain F1 Fs1 where "optimizeFunction ext F b cctx = Inr F1"
      "optimizeAll ext b cctx Fs = Some Fs1" "fs1 = F1 # Fs1"
    by (auto split: sum.splits)
  with Cons.IH [of Fs1] assms(1) show ?case by simp
qed

lemma wholeFunctionDAG_unsplit: "wholeFunctionDAG fname bn = unsplitDAG fname bn [0]"
  by (simp add: wholeFunctionDAG_def unsplitDAG_def Let_def make_DAGNode_def)


lemma saturateNode_all_devices:
  assumes "2 \<le> D" and "D < 2 ^ 32" and "unat dup = D" and "logicalDevices node = [0]"
  shows "saturateNode dup 1 node = node\<lparr>logicalDevices := map of_nat [0 ..< D]\<rparr>"
proof -
  let ?new = "map ucast (newDevices dup 1 [0 :: 64 word]) :: 64 word list"
  have fit: "\<forall>L \<in> set [0 :: 64 word]. unat L + (unat dup - 1) * unat (1 :: 32 word) < 2 ^ 32"
    using assms by simp
  have "map unat ?new = concat (map (\<lambda>L. map (\<lambda>i. L + i * unat (1 :: 32 word)) [1 ..< unat dup])
                                   (map unat [0 :: 64 word]))"
    by (rule newDevices_unat [OF fit])
  moreover have "map ((+) (0 :: nat)) xs = xs" for xs
    by (rule map_idI) simp
  ultimately have u: "map unat ?new = [1 ..< D]" using assms(3) by simp
  have "?new = map of_nat (map unat ?new)" by (simp add: comp_def)
  then have new: "?new = map of_nat [1 ..< D]" by (simp only: u)
  have "[0 ..< D] = 0 # [1 ..< D]" using assms(1) by (simp add: upt_rec)
  then have "map of_nat [0 ..< D] = (0 :: 64 word) # map of_nat [1 ..< D]" by simp
  with new show ?thesis by (simp add: saturateNode_def assms(4))
qed

lemma saturateHost_unsplit:
  assumes "deviceInfo' P \<noteq> []" and "length (deviceInfo' P) < 2 ^ 32"
  shows "saturateHost P 1 (map (\<lambda>F. unsplitDAG (funName F) bn [0]) fs)
           = Success (map (\<lambda>F. unsplitDAG (funName F) bn
                                 (map of_nat [0 ..< length (deviceInfo' P)])) fs)"
proof -
  let ?D = "length (deviceInfo' P)"
  let ?dup = "ucast ((of_nat ?D :: 64 word) div ucast (1 :: 32 word)) :: 32 word"
  have dup: "unat ?dup = ?D" using duplications_unat [OF assms(2), of 1] by simp
  have lt: "?dup < 2 \<longleftrightarrow> ?D < 2" by (simp only: word_less_nat_alt dup) simp
  show ?thesis
  proof (cases "?D < 2")
    case True
    with assms(1) have "?D = 1" by (cases "deviceInfo' P") auto
    then have "map of_nat [0 ..< ?D] = [0 :: 64 word]" by simp
    then show ?thesis using True lt by (simp add: saturateHost_def Let_def)
  next
    case False
    then have two: "2 \<le> ?D" by simp
    have dup1: "unat (ucast (of_nat ?D :: 64 word) :: 32 word) = ?D" using dup by simp
    have node: "saturateNode (ucast (of_nat ?D :: 64 word)) 1 n
                  = n\<lparr>logicalDevices := map of_nat [0 ..< ?D]\<rparr>"
      if "logicalDevices n = [0]" for n
      by (rule saturateNode_all_devices [OF two assms(2) dup1 that])
    have "saturateHost P 1 (map (\<lambda>F. unsplitDAG (funName F) bn [0]) fs)
        = Success (map (\<lambda>network. network\<lparr>nodes := map (saturateNode ?dup 1) (nodes network)\<rparr>)
                     (map (\<lambda>F. unsplitDAG (funName F) bn [0]) fs))"
      using False lt by (simp add: saturateHost_def Let_def)
    also have "map (\<lambda>network. network\<lparr>nodes := map (saturateNode ?dup 1) (nodes network)\<rparr>)
                     (map (\<lambda>F. unsplitDAG (funName F) bn [0]) fs)
        = map (\<lambda>F. unsplitDAG (funName F) bn (map of_nat [0 ..< ?D])) fs"
      by (simp add: unsplitDAG_def node make_DAGNode_def)
    finally show ?thesis .
  qed
qed

lemma finalize_verify_ok:
  "list_all (verifyFunction ext) fs \<Longrightarrow> finalize_verify ext fs = Success ()"
  by (induction fs) simp_all

lemma finalize_unsplit:
  assumes "list_all (verifyFunction ext) (getFunctions (module' P))" and "ls \<noteq> []"
    and "getFunctions (module' P) \<noteq> []"
  shows "finalize ext opts P (map (\<lambda>F. unsplitDAG (funName F) bn ls) (getFunctions (module' P)))
           mp = Success ()"
proof (cases "getFunctions (module' P)")
  case Nil
  with assms(3) show ?thesis by simp
next
  case (Cons F Fs)
  have "getFunction (module' P) (funName F) \<noteq> None"
    by (simp add: getFunction_def Cons)
  then obtain G where "getFunction (module' P) (funName F) = Some G" by blast
  then show ?thesis
    using assms by (simp add: finalize_def finalize_verify_ok Cons unsplitDAG_def make_DAGNode_def)
qed


lemma optimizeAll_length: "optimizeAll ext b cctx fs = Some fs1 \<Longrightarrow> length fs1 = length fs"
  by (induction fs arbitrary: fs1) (auto split: sum.splits)

lemma heterogeneousPartition_unsplit:
  assumes fresh: "backendMap' P = Map.empty" "backendHolder P = []"
    and given: "backends' P = []
                \<or> map getBackendName (backends' P) = map backendName (deviceInfo' P)"
    and devs: "deviceInfo' P \<noteq> []" "\<forall>d \<in> set (deviceInfo' P). backendName d = bn"
              "length (deviceInfo' P) < 2 ^ 32"
    and name: "getBackendName (givenBackend ext P bn) = bn"
    and funs: "getFunctions (module' P) \<noteq> []"
    and fits: "snd (selectRepFunc (module' P) (memSize' P))
                 < availableMemory (hd (deviceInfo' P))"
    and opt: "if optimized' P then fs = getFunctions (module' P)
              else optimizeAll ext (givenBackend ext P bn) cctx (getFunctions (module' P))
                     = Some fs"
    and ver: "list_all (verifyFunction ext) fs"
  shows "\<exists>P1. heterogeneousPartition ext opts P cctx
                 = Success (map (\<lambda>F. unsplitDAG (funName F) bn (childDevices P)) fs, P1)
              \<and> getFunctions (module' P1) = fs"
proof -
  let ?b = "givenBackend ext P bn"
  from genBackendMap_single [OF fresh given devs(1,2), of ext]
  obtain bm holder info where
    gen: "genBackendMap ext P (backendMap' P) (backendHolder P) [] = Success (bm, holder, [?b])"
    and info: "bm bn = Some info" "memSize info = availableMemory (hd (deviceInfo' P))"
              "backend info = Some ?b"
    by blast
  define rep where "rep = selectRepFunc (module' P) (memSize' P)"
  obtain F where F: "fst rep = Some F"
    using selectRepFunc_Some [OF funs] unfolding rep_def by blast
  define P2 where "P2 = P\<lparr>backendMap' := bm, backendHolder := holder,
                           F' := fst rep, memSize' := snd rep\<rparr>"
  have at: "memSize (at bm bn) = availableMemory (hd (deviceInfo' P))"
           "backend (at bm bn) = Some ?b"
    using info by (simp_all add: at_def)
  have small: "snd rep < memSize (at bm bn)" using fits at(1) by (simp add: rep_def)
  have het: "heterogeneousPartition ext opts P cctx
               = createDAGWithoutPartition ext opts P2 bn bm cctx"
    using F small
    by (simp add: heterogeneousPartition_def gen Let_def rep_def [symmetric] P2_def name)
  have len: "length fs = length (getFunctions (module' P))"
    using opt optimizeAll_length by (auto split: if_splits)
  with funs have fs_ne: "fs \<noteq> []" by auto
  have loop: "createDAGWithoutPartition_loop ext (optimized' P2) bn bm cctx
                (getFunctions (module' P2))
              = Success (fs, map (\<lambda>F. unsplitDAG (funName F) bn [0]) fs)"
  proof (cases "optimized' P")
    case True
    with opt show ?thesis
      by (simp add: P2_def createDAGWithoutPartition_loop_optimized wholeFunctionDAG_unsplit)
  next
    case False
    with opt have "optimizeAll ext ?b cctx (getFunctions (module' P)) = Some fs" by simp
    from createDAGWithoutPartition_loop_optimizing [OF at(2) this] False
    show ?thesis by (simp add: P2_def wholeFunctionDAG_unsplit)
  qed
  define P3 where "P3 = P2\<lparr>module' := (module' P2)\<lparr>getFunctions := fs\<rparr>\<rparr>"
  have P3: "getFunctions (module' P3) = fs" "deviceInfo' P3 = deviceInfo' P"
      "saturateHost' P3 = saturateHost' P"
    by (simp_all add: P3_def P2_def)
  have sat: "saturateHost P3 1 (map (\<lambda>F. unsplitDAG (funName F) bn [0]) fs)
             = Success (map (\<lambda>F. unsplitDAG (funName F) bn (childDevices P)) fs)"
    if "saturateHost' P"
    using saturateHost_unsplit [of P3 bn fs] devs(1,3) that
    by (simp add: P3 childDevices_def)
  have unsat: "childDevices P = [0]" if "\<not> saturateHost' P"
    using that by (simp add: childDevices_def)
  have P2sat: "saturateHost' P2 = saturateHost' P" by (simp add: P2_def)
  have cd: "childDevices P \<noteq> []" using devs(1) by (simp add: childDevices_def)
  have fin: "finalize ext opts P3
               (map (\<lambda>F. unsplitDAG (funName F) bn (childDevices P)) fs)
               make_NodeToFunctionMap = Success ()"
    using finalize_unsplit [of ext P3 "childDevices P" opts bn make_NodeToFunctionMap]
          ver cd fs_ne
    by (simp add: P3)
  have "createDAGWithoutPartition ext opts P2 bn bm cctx
          = Success (map (\<lambda>F. unsplitDAG (funName F) bn (childDevices P)) fs, P3)"
  proof (cases "saturateHost' P")
    case True
    then show ?thesis
      by (simp add: createDAGWithoutPartition_def loop P3_def [symmetric] P3 P2sat sat fin)
  next
    case False
    then show ?thesis
      using fin
      by (simp add: createDAGWithoutPartition_def loop P3_def [symmetric] P3 P2sat unsat)
  qed
  with het P3(1) show ?thesis by simp
qed

text \<open>
  C8, as the claim states it, fails when the host is to be saturated: with two devices
  of the one backend A and a module whose estimate, 116 bytes, fits the 1000 bytes of the
  backend, the child of the DAG carries the logical devices 0 and 1, not device 0 alone.
\<close>

theorem heterogeneousPartition_saturated_counterexample:
  "shareOneBackend (deviceInfo' saturatingPartitioner)
   \<and> snd (selectRepFunc (module' saturatingPartitioner) (memSize' saturatingPartitioner))
       < availableMemory (hd (deviceInfo' saturatingPartitioner))
   \<and> map_outcome fst (heterogeneousPartition sampleExternals sampleOptions
         saturatingPartitioner (make_CompilationContext None None))
       = Success [saturatedWholeDAG]
   \<and> map logicalDevices (nodes saturatedWholeDAG) = [ [0, 1] ]"
proof -
  let ?P = saturatingPartitioner
  have P: "?P = (emptyPartitioner sampleModule twoDevices)
                  \<lparr>backends' := [], saturateHost' := True, optimized' := True,
                   memSize' := 100\<rparr>"
    by (simp add: saturatingPartitioner_def Partitioner_backends_def init_def
          emptyPartitioner_def sampleModule_def twoDevices_def deviceA_def)
  have share: "shareOneBackend (deviceInfo' ?P)"
    by (simp add: P emptyPartitioner_def shareOneBackend_def twoDevices_def deviceA_def)
  have rep: "snd (selectRepFunc (module' ?P) (memSize' ?P)) = 116"
    by (simp add: P emptyPartitioner_def sampleModule_def selectRepFunc_def Let_def
          sampleFunction_def sampleNode_def)
  have fits: "snd (selectRepFunc (module' ?P) (memSize' ?P))
                < availableMemory (hd (deviceInfo' ?P))"
    by (simp only: rep) (simp add: P emptyPartitioner_def twoDevices_def deviceA_def)
  have "\<exists>P1. heterogeneousPartition sampleExternals sampleOptions ?P
                (make_CompilationContext None None)
              = Success (map (\<lambda>F. unsplitDAG (funName F) ''A'' (childDevices ?P))
                           (getFunctions (module' ?P)), P1)
            \<and> getFunctions (module' P1) = getFunctions (module' ?P)"
  proof (rule heterogeneousPartition_unsplit [OF _ _ _ _ _ _ _ _ fits])
    show "backendMap' ?P = Map.empty" "backendHolder ?P = []"
      by (simp_all add: P emptyPartitioner_def)
    show "backends' ?P = []
          \<or> map getBackendName (backends' ?P) = map backendName (deviceInfo' ?P)"
      by (simp add: P emptyPartitioner_def)
    show "deviceInfo' ?P \<noteq> []" "\<forall>d \<in> set (deviceInfo' ?P). backendName d = ''A''"
        "length (deviceInfo' ?P) < 2 ^ 32"
      by (simp_all add: P emptyPartitioner_def twoDevices_def deviceA_def)
    show "getBackendName (givenBackend sampleExternals ?P ''A'') = ''A''"
      by (simp add: P emptyPartitioner_def givenBackend_def sampleExternals_def
            sampleBackend_def)
    show "getFunctions (module' ?P) \<noteq> []"
      by (simp add: P emptyPartitioner_def sampleModule_def)
    show "if optimized' ?P then getFunctions (module' ?P) = getFunctions (module' ?P)
          else optimizeAll sampleExternals (givenBackend sampleExternals ?P ''A'')
                 (make_CompilationContext None None) (getFunctions (module' ?P))
               = Some (getFunctions (module' ?P))"
      by (simp add: P emptyPartitioner_def)
    show "list_all (verifyFunction sampleExternals) (getFunctions (module' ?P))"
      by (simp add: sampleExternals_def list_all_iff)
  qed
  then obtain P1 where res: "heterogeneousPartition sampleExternals sampleOptions ?P
                (make_CompilationContext None None)
              = Success (map (\<lambda>F. unsplitDAG (funName F) ''A'' (childDevices ?P))
                           (getFunctions (module' ?P)), P1)"
    by blast
  have upt: "[0 ..< 2] = [0, Suc 0]" by (simp add: numeral_2_eq_2)
  have dag: "map (\<lambda>F. unsplitDAG (funName F) ''A'' (childDevices ?P))
               (getFunctions (module' ?P)) = [saturatedWholeDAG]"
    by (simp add: P emptyPartitioner_def sampleModule_def sampleFunction_def twoDevices_def
          childDevices_def unsplitDAG_def saturatedWholeDAG_def wholeDAG_def
          wholeFunctionDAG_def Let_def make_DAGNode_def upt)
  have devs: "map logicalDevices (nodes saturatedWholeDAG) = [ [0, 1] ]"
    by (simp add: saturatedWholeDAG_def wholeDAG_def wholeFunctionDAG_def Let_def)
  from share fits res dag devs show ?thesis by simp
qed

text \<open>
  C8 (amended): in \<open>heterogeneousPartition\<close>, run on a partitioner that has built no
  backend map and holds no backend of its own making yet, and to which the backends
  given, if any, are one for each device and of the device's backend name, as the
  \<open>DCHECK\<close>s of \<open>genBackendMap\<close> ask: when the devices, fewer than \<open>2 ^ 32\<close>, present
  exactly one backend name, whose backend bears that name, the module has a function,
  and the module's working-set estimate \<open>memSize_\<close> is less than that backend's memory,
  then, provided the functions optimize (unless the module is optimized already) and
  verify, the result for each function in the module is a DAG consisting of a synthetic
  root (name = the function's name, no backend, logical devices \<open>[0]\<close>) and exactly one
  child \<open>DAGNode\<close> carrying the whole unsplit function on that backend; the child's
  logical devices are \<open>[0]\<close>, or \<open>[0, \<dots>, D - 1]\<close> for \<open>D\<close> devices when the host is to be
  saturated. No sub-function is created: the module holds the functions it held,
  optimized.
\<close>

theorem heterogeneousPartition_without_partition:
  assumes "backendMap' P = Map.empty" and "backendHolder P = []"
    and "backends' P = []
         \<or> map getBackendName (backends' P) = map backendName (deviceInfo' P)"
    and "deviceInfo' P \<noteq> []" and "\<forall>d \<in> set (deviceInfo' P). backendName d = bn"
    and "length (deviceInfo' P) < 2 ^ 32"
    and "getBackendName (givenBackend ext P bn) = bn"
    and "getFunctions (module' P) \<noteq> []"
    and "snd (selectRepFunc (module' P) (memSize' P))
           < availableMemory (hd (deviceInfo' P))"
    and "if optimized' P then fs = getFunctions (module' P)
         else optimizeAll ext (givenBackend ext P bn) cctx (getFunctions (module' P))
                = Some fs"
    and "list_all (verifyFunction ext) fs"
  shows "\<exists>P1. heterogeneousPartition ext opts P cctx
                 = Success (map (\<lambda>F. unsplitDAG (funName F) bn (childDevices P)) fs, P1)
              \<and> getFunctions (module' P1) = fs"
  using assms by (rule heterogeneousPartition_unsplit)

theorem heterogeneousPartition_without_partition_witness:
  "\<exists>P1. heterogeneousPartition sampleExternals sampleOptions samplePartitioner
            (make_CompilationContext None None)
          = Success ([unsplitDAG ''main'' ''A'' [0]], P1)
        \<and> getFunctions (module' P1) = [sampleFunction ''main'']"
proof -
  let ?P = samplePartitioner
  have P: "?P = (emptyPartitioner sampleModule twoDevices)
                  \<lparr>backends' := [], saturateHost' := False, optimized' := True,
                   memSize' := 100\<rparr>"
    by (simp add: samplePartitioner_def Partitioner_backends_def init_def
          emptyPartitioner_def sampleModule_def twoDevices_def deviceA_def)
  have rep: "snd (selectRepFunc (module' ?P) (memSize' ?P)) = 116"
    by (simp add: P emptyPartitioner_def sampleModule_def selectRepFunc_def Let_def
          sampleFunction_def sampleNode_def)
  have fits: "snd (selectRepFunc (module' ?P) (memSize' ?P))
                < availableMemory (hd (deviceInfo' ?P))"
    by (simp only: rep) (simp add: P emptyPartitioner_def twoDevices_def deviceA_def)
  have h1: "backendMap' ?P = Map.empty" and h2: "backendHolder ?P = []"
    by (simp_all add: P emptyPartitioner_def)
  have h3: "backends' ?P = []
            \<or> map getBackendName (backends' ?P) = map backendName (deviceInfo' ?P)"
    by (simp add: P emptyPartitioner_def)
  have h4: "deviceInfo' ?P \<noteq> []"
    and h5: "\<forall>d \<in> set (deviceInfo' ?P). backendName d = ''A''"
    and h6: "length (deviceInfo' ?P) < 2 ^ 32"
    by (simp_all add: P emptyPartitioner_def twoDevices_def deviceA_def)
  have h7: "getBackendName (givenBackend sampleExternals ?P ''A'') = ''A''"
    by (simp add: P emptyPartitioner_def givenBackend_def sampleExternals_def
          sampleBackend_def)
  have h8: "getFunctions (module' ?P) \<noteq> []"
    by (simp add: P emptyPartitioner_def sampleModule_def)
  have h10: "if optimized' ?P then [sampleFunction ''main''] = getFunctions (module' ?P)
          else optimizeAll sampleExternals (givenBackend sampleExternals ?P ''A'')
                 (make_CompilationContext None None) (getFunctions (module' ?P))
               = Some [sampleFunction ''main'']"
    by (simp add: P emptyPartitioner_def sampleModule_def)
  have h11: "list_all (verifyFunction sampleExternals) [sampleFunction ''main'']"
    by (simp add: sampleExternals_def)
  have cd: "childDevices ?P = [0]" by (simp add: P childDevices_def)
  from heterogeneousPartition_without_partition
         [OF h1 h2 h3 h4 h5 h6 h7 h8 fits h10 h11, of sampleOptions]
  show ?thesis by (simp add: cd sampleFunction_def)
qed

section \<open>A configured function that the module does not have\<close>

lemma genBackendMap_loop_no_failure:
  "genBackendMap_loop ext bs ds i st \<noteq> Failure e"
proof (induction ds arbitrary: i st bs)
  case Nil
  show ?case by simp
next
  case (Cons d ds)
  obtain a b c n where st: "st = (a, b, c, n)" using prod_cases4 by blast
  show ?case by (simp add: st Let_def Cons.IH)
qed

lemma genBackendMap_cases:
  "genBackendMap ext P bm hs bks = Abort
   \<or> (\<exists>r. genBackendMap ext P bm hs bks = Success r)"
proof (cases "genBackendMap_loop ext (backends' P) (deviceInfo' P) 0 (bm, hs, bks, 0)")
  case Abort
  then show ?thesis by (simp add: genBackendMap_def)
next
  case (Failure e)
  with genBackendMap_loop_no_failure show ?thesis by blast
next
  case (Success st)
  obtain a b c n where "st = (a, b, c, n)" using prod_cases4 by blast
  with Success show ?thesis by (simp add: genBackendMap_def)
qed

text \<open>
  C9, what the code does: if \<open>partitionConfig.funcName\<close> does not name any function of the
  module, \<open>partitionFromConfig\<close> returns no error; the call has no defined result, as the
  message of the error is formatted from the null function.
\<close>

theorem partitionFromConfig_function_not_found:
  assumes "getFunction (module' P) (funcName partitionConfig) = None"
  shows "partitionFromConfig ext opts P partitionConfig = Abort"
proof -
  from genBackendMap_cases [of ext P "backendMap' P" "backendHolder P" "[]"]
  show ?thesis
  proof
    assume "genBackendMap ext P (backendMap' P) (backendHolder P) [] = Abort"
    then show ?thesis by (simp add: partitionFromConfig_def)
  next
    assume "\<exists>r. genBackendMap ext P (backendMap' P) (backendHolder P) [] = Success r"
    then obtain bm holder backends where
      "genBackendMap ext P (backendMap' P) (backendHolder P) [] = Success (bm, holder, backends)"
      using prod_cases3 by metis
    then show ?thesis using assms by (simp add: partitionFromConfig_def Let_def)
  qed
qed

theorem partitionFromConfig_function_not_found_witness:
  "getFunction (module' missingConfigPartitioner) (funcName missingConfig) = None
   \<and> partitionFromConfig sampleExternals sampleOptions missingConfigPartitioner missingConfig
       = Abort"
proof -
  have nf: "getFunction (module' missingConfigPartitioner) (funcName missingConfig) = None"
    by (simp add: missingConfigPartitioner_def Partitioner_config_def init_def
          emptyPartitioner_def missingConfig_def make_PartitionConfig_def getFunction_def
          sampleModule_def sampleFunction_def)
  from partitionFromConfig_function_not_found [OF nf] nf show ?thesis by simp
qed

section \<open>The backend map\<close>

lemma genBackendMap_loop_success:
  assumes "bs = [] \<or> (\<forall>j < length ds. i + j < length bs
              \<and> getBackendName (bs ! (i + j)) = backendName (ds ! j))"
  shows "\<exists>st'. genBackendMap_loop ext bs ds i st = Success st'"
  using assms
proof (induction ds arbitrary: i st)
  case Nil
  show ?case by (rule exI [of _ st]) simp
next
  case (Cons d ds)
  obtain bm holder backs n where st: "st = (bm, holder, backs, n)"
    using prod_cases4 by blast
  have ok: "\<not> (bs \<noteq> [] \<and> (length bs \<le> i \<or> getBackendName (bs ! i) \<noteq> backendName d))"
    using Cons.prems by fastforce
  have next': "bs = [] \<or> (\<forall>j < length ds. (i + 1) + j < length bs
              \<and> getBackendName (bs ! ((i + 1) + j)) = backendName (ds ! j))"
    using Cons.prems by fastforce
  show ?case
    using ok Cons.IH [OF next'] by (simp add: st Let_def)
qed

lemma genBackendMap_loop_entry:
  assumes "genBackendMap_loop ext bs ds i (bm0, holder, backs, n) = Success (bm, holder1, backs1, n1)"
  shows "case bm0 b of
           Some i0 \<Rightarrow> bm b = Some (i0\<lparr>num := num i0 + countBackend b ds\<rparr>)
         | None \<Rightarrow>
            (case find (\<lambda>d. backendName d = b) ds of
               None \<Rightarrow> bm b = None
             | Some d \<Rightarrow> (\<exists>info. bm b = Some info \<and> num info = countBackend b ds
                             \<and> copiedFrom ext d info))"
  using assms
proof (induction ds arbitrary: i bm0 holder backs n)
  case Nil
  then show ?case by (simp add: countBackend_def split: option.splits)
next
  case (Cons d ds)
  let ?bn = "backendName d"
  have noabort: "\<not> (bs \<noteq> [] \<and> (length bs \<le> i \<or> getBackendName (bs ! i) \<noteq> ?bn))"
    using Cons.prems by (auto simp: Let_def split: if_splits)
  show ?case
  proof (cases "bm0 ?bn")
    case None
    define holderA where "holderA = (if bs \<noteq> [] then holder else holder @ [createBackend ext ?bn])"
    define bA where "bA = (if bs \<noteq> [] then bs ! i else holderA ! n)"
    define nA where "nA = (if bs \<noteq> [] then n else n + 1)"
    define infoA where "infoA = \<lparr>num = 1, memSize = availableMemory d,
               infoPeakDramBw = peakDramBw d, infoPeakSramBw = peakSramBw d,
               infoSramCapacity = sramCapacity d, infoPeakCompute = peakCompute d,
               nonSupportedNodesKinds = generateNodeKindsSet ext (nonSupportedNodes d),
               supportedNodesKinds = generateNodeKindsSet ext (supportedNodes d),
               backend = Some bA\<rparr>"
    have step: "genBackendMap_loop ext bs ds (i + 1) (bm0(?bn \<mapsto> infoA), holderA, backs @ [bA], nA)
        = Success (bm, holder1, backs1, n1)"
      using Cons.prems noabort None
      by (cases "bs = []") (simp_all add: Let_def holderA_def bA_def nA_def infoA_def)
    note IH = Cons.IH [OF step]
    show ?thesis
    proof (cases "b = ?bn")
      case True
      with IH have "bm b = Some (infoA\<lparr>num := num infoA + countBackend b ds\<rparr>)" by simp
      then show ?thesis using True None
        by (simp add: infoA_def countBackend_def copiedFrom_def)
    next
      case False
      with IH show ?thesis by (simp add: countBackend_def split: option.splits)
    qed
  next
    case (Some i0)
    have step: "genBackendMap_loop ext bs ds (i + 1)
          (bm0(?bn \<mapsto> i0\<lparr>num := num i0 + 1\<rparr>), holder, backs, n)
        = Success (bm, holder1, backs1, n1)"
      using Cons.prems noabort Some by (simp add: Let_def at_def)
    note IH = Cons.IH [OF step]
    show ?thesis
    proof (cases "b = ?bn")
      case True
      with IH Some show ?thesis by (simp add: countBackend_def)
    next
      case False
      with IH show ?thesis by (simp add: countBackend_def split: option.splits)
    qed
  qed
qed

text \<open>
  C10, as the claim states it, fails when the backend map holds an entry for the name
  already: \<open>genBackendMap\<close> then only adds to \<open>num\<close>. The map is handed over by reference
  and a partitioner keeps its own from one flow to the next. With the two sample devices
  of backend A, the first run leaves \<open>num = 2\<close>; a second run on the map and the backend
  holder that the first one left ends with \<open>num = 4\<close>, which is not the number of devices
  of backend A.
\<close>

theorem genBackendMap_second_run_counterexample:
  "genBackendMap sampleExternals samplePartitioner Map.empty [] []
     = Success ([''A'' \<mapsto> sampleInfo 2], [sampleBackend ''A''], [sampleBackend ''A''])
   \<and> genBackendMap sampleExternals samplePartitioner [''A'' \<mapsto> sampleInfo 2]
         [sampleBackend ''A''] []
     = Success ([''A'' \<mapsto> sampleInfo 4], [sampleBackend ''A''], [])
   \<and> num (sampleInfo 4) = 4
   \<and> countBackend ''A'' (deviceInfo' samplePartitioner) = 2"
proof -
  have devs: "deviceInfo' samplePartitioner = [deviceA 1000, deviceA 500]"
    by (simp add: samplePartitioner_def Partitioner_backends_def init_def
          emptyPartitioner_def twoDevices_def)
  have bs: "backends' samplePartitioner = []"
    by (simp add: samplePartitioner_def Partitioner_backends_def init_def emptyPartitioner_def)
  have two: "Suc (Suc 0) = 2" by simp
  have first: "genBackendMap sampleExternals samplePartitioner Map.empty [] []
     = Success ([''A'' \<mapsto> sampleInfo 2], [sampleBackend ''A''], [sampleBackend ''A''])"
    by (simp add: genBackendMap_def devs bs Let_def deviceA_def sampleExternals_def
          sampleInfo_def at_def two)
  have second: "genBackendMap sampleExternals samplePartitioner [''A'' \<mapsto> sampleInfo 2]
         [sampleBackend ''A''] []
     = Success ([''A'' \<mapsto> sampleInfo 4], [sampleBackend ''A''], [])"
    by (simp add: genBackendMap_def devs bs Let_def deviceA_def sampleInfo_def at_def)
  have count: "countBackend ''A'' (deviceInfo' samplePartitioner) = 2"
    by (simp add: devs countBackend_def deviceA_def)
  from first second count show ?thesis by (simp add: sampleInfo_def)
qed

text \<open>
  C10 (amended): for every backend name \<open>b\<close> appearing among the \<open>DeviceInfo\<close>s,
  \<open>genBackendMap\<close>, run on a backend map that has no entry for \<open>b\<close> yet, and with the
  backends given to the partitioner, if any, being one for each device and of the
  device's backend name, as the \<open>DCHECK\<close>s ask, produces a \<open>BackendInfo\<close> whose \<open>num\<close> is
  the number of \<open>DeviceInfo\<close> entries with backend name \<open>b\<close> and whose memory size, SRAM
  capacity, peak compute, bandwidths and kind sets are those of the first \<open>DeviceInfo\<close>
  with that backend name, whatever the later ones hold.
\<close>

theorem genBackendMap_backend_info:
  assumes "backends' P = []
           \<or> map getBackendName (backends' P) = map backendName (deviceInfo' P)"
    and "backendMap b = None"
    and "find (\<lambda>d. backendName d = b) (deviceInfo' P) = Some d"
  shows "\<exists>bm holder backs info.
           genBackendMap ext P backendMap hs bks = Success (bm, holder, backs)
           \<and> bm b = Some info
           \<and> num info = countBackend b (deviceInfo' P)
           \<and> copiedFrom ext d info"
proof -
  let ?bs = "backends' P" and ?ds = "deviceInfo' P"
  have dcheck: "?bs = [] \<or> (\<forall>j < length ?ds. 0 + j < length ?bs
                  \<and> getBackendName (?bs ! (0 + j)) = backendName (?ds ! j))"
  proof (cases "?bs = []")
    case True
    then show ?thesis by simp
  next
    case False
    with assms(1) have eq: "map getBackendName ?bs = map backendName ?ds" by simp
    then have len: "length ?bs = length ?ds" by (rule map_eq_imp_length_eq)
    have "getBackendName (?bs ! j) = backendName (?ds ! j)" if "j < length ?ds" for j
      using that len nth_map [of j ?bs getBackendName] nth_map [of j ?ds backendName] eq
      by simp
    with len show ?thesis by simp
  qed
  have sizes: "\<not> (?bs \<noteq> [] \<and> length ?bs \<noteq> length ?ds)"
    using assms(1) map_eq_imp_length_eq by blast
  from genBackendMap_loop_success [OF dcheck, of ext "(backendMap, hs, bks, 0)"]
  obtain bm holder backs n where
    loop: "genBackendMap_loop ext ?bs ?ds 0 (backendMap, hs, bks, 0) = Success (bm, holder, backs, n)"
    using prod_cases4 by metis
  from genBackendMap_loop_entry [OF loop, of b] assms(2,3)
  obtain info where "bm b = Some info" "num info = countBackend b ?ds" "copiedFrom ext d info"
    by auto
  moreover have "genBackendMap ext P backendMap hs bks = Success (bm, holder, backs)"
    using sizes loop by (simp add: genBackendMap_def)
  ultimately show ?thesis by blast
qed

theorem genBackendMap_backend_info_witness:
  "\<exists>bm holder backs info.
      genBackendMap sampleExternals samplePartitioner Map.empty [] [] = Success (bm, holder, backs)
      \<and> bm ''A'' = Some info \<and> num info = 2 \<and> memSize info = 1000"
proof -
  have devs: "deviceInfo' samplePartitioner = [deviceA 1000, deviceA 500]"
    by (simp add: samplePartitioner_def Partitioner_backends_def init_def
          emptyPartitioner_def twoDevices_def)
  have bs: "backends' samplePartitioner = []
            \<or> map getBackendName (backends' samplePartitioner)
                = map backendName (deviceInfo' samplePartitioner)"
    by (simp add: samplePartitioner_def Partitioner_backends_def init_def emptyPartitioner_def)
  have first: "find (\<lambda>d. backendName d = ''A'') (deviceInfo' samplePartitioner)
                 = Some (deviceA 1000)"
    by (simp add: devs deviceA_def)
  have count: "countBackend ''A'' (deviceInfo' samplePartitioner) = 2"
    by (simp add: devs countBackend_def deviceA_def)
  have fresh: "Map.empty ''A'' = (None :: BackendInfo option)" by simp
  from genBackendMap_backend_info [OF bs fresh first, of sampleExternals "[]" "[]"]
  show ?thesis
    by (auto simp: count copiedFrom_def deviceA_def)
qed

end
